theory Spec2Isabelle
  imports Complex_Main "HOL-Library.Multiset"
begin

section \<open>Numbers and time strings (src/lib/validators.ts)\<close>

text \<open>
  Minute counts are JavaScript numbers.  The model keeps the integers and the
  one non-number that the time functions can produce: \<open>None\<close> stands for
  \<open>NaN\<close>.  Every comparison with \<open>NaN\<close> is false, every arithmetic
  operation on it gives \<open>NaN\<close>.
\<close>

type_synonym jsnum = "int option"

definition jsAdd :: "jsnum \<Rightarrow> jsnum \<Rightarrow> jsnum" where
  "jsAdd a b = (case (a, b) of (Some x, Some y) \<Rightarrow> Some (x + y) | _ \<Rightarrow> None)"

definition jsSub :: "jsnum \<Rightarrow> jsnum \<Rightarrow> jsnum" where
  "jsSub a b = (case (a, b) of (Some x, Some y) \<Rightarrow> Some (x - y) | _ \<Rightarrow> None)"

definition jsAbs :: "jsnum \<Rightarrow> jsnum" where
  "jsAbs a = map_option abs a"

definition jsLt :: "jsnum \<Rightarrow> jsnum \<Rightarrow> bool" where
  "jsLt a b = (case (a, b) of (Some x, Some y) \<Rightarrow> x < y | _ \<Rightarrow> False)"

definition jsLe :: "jsnum \<Rightarrow> jsnum \<Rightarrow> bool" where
  "jsLe a b = (case (a, b) of (Some x, Some y) \<Rightarrow> x \<le> y | _ \<Rightarrow> False)"

definition jsGt :: "jsnum \<Rightarrow> jsnum \<Rightarrow> bool" where
  "jsGt a b = jsLt b a"

text \<open>Decimal digits, as \<open>Number.prototype.toString\<close> prints an integer.\<close>

definition digitChar :: "nat \<Rightarrow> char" where
  "digitChar d = ''0123456789'' ! (d mod 10)"

fun natToString :: "nat \<Rightarrow> string" where
  "natToString n =
     (if n < 10 then [digitChar n] else natToString (n div 10) @ [digitChar (n mod 10)])"

declare natToString.simps [simp del]

definition intToString :: "int \<Rightarrow> string" where
  "intToString i = (if i < 0 then CHR ''-'' # natToString (nat (- i)) else natToString (nat i))"

text \<open>The value of a digit character, from its character code (48 to 57).\<close>

definition digitVal :: "char \<Rightarrow> nat option" where
  "digitVal c =
     (let code = (of_char c :: nat) in
      if 48 \<le> code \<and> code \<le> 57 then Some (code - 48) else None)"

text \<open>The value of a string of digits read left to right, \<open>acc\<close> the value so far.\<close>

fun parseDigits :: "nat \<Rightarrow> string \<Rightarrow> nat option" where
  "parseDigits acc [] = Some acc"
| "parseDigits acc (c # cs) =
     (case digitVal c of None \<Rightarrow> None | Some d \<Rightarrow> parseDigits (10 * acc + d) cs)"

text \<open>
  \<open>Number(s)\<close> on the strings the time functions meet: the empty string is 0, an
  optionally signed string of decimal digits is its value, anything else is
  \<open>NaN\<close>.  (Fractions, exponents and hexadecimal literals are numbers in
  JavaScript that are not integers of the model; no time string of the
  program has them.)
\<close>

definition Number :: "string \<Rightarrow> jsnum" where
  "Number s =
     (case s of
        [] \<Rightarrow> Some 0
      | c # cs \<Rightarrow>
          if c = CHR ''-'' then
            (if cs = [] then None else map_option (\<lambda>n. - int n) (parseDigits 0 cs))
          else if c = CHR ''+'' then
            (if cs = [] then None else map_option int (parseDigits 0 cs))
          else map_option int (parseDigits 0 s))"

text \<open>\<open>time.split(':')\<close>: the pieces between the colons, at least one piece.\<close>

fun splitColon :: "string \<Rightarrow> string list" where
  "splitColon [] = [[]]"
| "splitColon (c # cs) =
     (if c = CHR '':'' then [] # splitColon cs
      else (case splitColon cs of p # ps \<Rightarrow> (c # p) # ps | [] \<Rightarrow> [[c]]))"

text \<open>
  \<open>timeToMinutes\<close>: \<open>const [hours, minutes] = time.split(':').map(Number)\<close>; a
  missing second piece is \<open>undefined\<close>, and the sum is then \<open>NaN\<close>.
\<close>

definition timeToMinutes :: "string \<Rightarrow> jsnum" where
  "timeToMinutes time =
     (case map Number (splitColon time) of
        hours # minutes # _ \<Rightarrow>
          jsAdd (case hours of None \<Rightarrow> None | Some h \<Rightarrow> Some (h * 60)) minutes
      | _ \<Rightarrow> None)"

text \<open>\<open>padStart(2, '0')\<close>.\<close>

definition padStart2 :: "string \<Rightarrow> string" where
  "padStart2 s = replicate (2 - length s) CHR ''0'' @ s"

text \<open>The remainder \<open>%\<close> of JavaScript takes the sign of the dividend.\<close>

definition jsRem :: "int \<Rightarrow> int \<Rightarrow> int" where
  "jsRem a b = sgn a * (\<bar>a\<bar> mod \<bar>b\<bar>)"

definition minutesToTime :: "jsnum \<Rightarrow> string" where
  "minutesToTime minutes =
     (case minutes of
        None \<Rightarrow> ''NaN:NaN''
      | Some m \<Rightarrow> padStart2 (intToString (m div 60)) @ '':'' @ padStart2 (intToString (jsRem m 60)))"

definition timeDifference :: "string \<Rightarrow> string \<Rightarrow> jsnum" where
  "timeDifference time1 time2 = jsAbs (jsSub (timeToMinutes time1) (timeToMinutes time2))"

datatype arrivalStatus = on_time | early | late

definition getArrivalStatus :: "string \<Rightarrow> string \<Rightarrow> int \<Rightarrow> arrivalStatus" where
  "getArrivalStatus arrivalTime preferredTime gracePeriod =
     (let diffMinutes = timeDifference arrivalTime preferredTime in
      if jsLe diffMinutes (Some gracePeriod) then on_time
      else
        let actual = timeToMinutes arrivalTime;
            preferred = timeToMinutes preferredTime
        in if jsLt actual preferred then early else late)"

section \<open>Appointments (types)\<close>

datatype flexibility = flexible | inflexible

text \<open>
  \<open>GeocodedAppointment\<close>, with the fields that the functions below read (the
  address fields and the row number are only printed).  The field \<open>id\<close> is
  \<open>ident\<close> here.  \<open>visitDurationMinutes\<close> is a whole number of minutes;
  \<open>startTime\<close> is \<open>string | null\<close>.
\<close>

record Appointment =
  ident :: string
  appName :: string
  visitDurationMinutes :: int
  startTime :: "string option"
  date :: string
  flexibility :: flexibility
  latitude :: real
  longitude :: real

definition isInflexible :: "Appointment \<Rightarrow> bool" where
  "isInflexible apt = (flexibility apt = inflexible)"

text \<open>
  The code tests \<open>startTime\<close> by truthiness (\<open>!apt.startTime\<close>,
  \<open>apt.startTime || ...\<close>): \<open>null\<close> and the empty string are both falsy.
  \<open>truthyStartTime\<close> is the start time when it is truthy.
\<close>

definition truthyStartTime :: "Appointment \<Rightarrow> string option" where
  "truthyStartTime apt =
     (case startTime apt of None \<Rightarrow> None | Some s \<Rightarrow> if s = [] then None else Some s)"

section \<open>Conflict detection (simulation utilities)\<close>

datatype severity = critical | major | minor

record SchedulingConflict =
  appointments :: "Appointment \<times> Appointment"
  gapMinutes :: int
  requiredMinutes :: int
  severity :: severity

definition detectConflict :: "Appointment \<Rightarrow> Appointment \<Rightarrow> SchedulingConflict option" where
  "detectConflict apt1 apt2 =
     (case (truthyStartTime apt1, truthyStartTime apt2) of
        (Some s1, Some s2) \<Rightarrow>
          let time1 = timeToMinutes s1;
              time2 = timeToMinutes s2;
              (first, second, firstTime, secondTime) =
                 (if jsLt time1 time2 then (apt1, apt2, time1, time2)
                  else (apt2, apt1, time2, time1));
              gap = jsSub secondTime firstTime;
              required = visitDurationMinutes first
          in (case gap of
                None \<Rightarrow> None
              | Some g \<Rightarrow>
                  if g < required then
                    Some \<lparr> appointments = (first, second),
                           gapMinutes = g,
                           requiredMinutes = required,
                           severity = (if required - g > 30 then critical
                                       else if required - g > 15 then major
                                       else minor) \<rparr>
                  else None)
      | _ \<Rightarrow> None)"

section \<open>Great-circle distance (src/lib/validators.ts)\<close>

definition degreesToRadians :: "real \<Rightarrow> real" where
  "degreesToRadians degrees = degrees * (pi / 180)"

text \<open>\<open>Math.atan2(y, x)\<close>: the angle of the point \<open>(x, y)\<close>, in \<open>(-\<pi>, \<pi>]\<close>.\<close>

definition atan2 :: "real \<Rightarrow> real \<Rightarrow> real" where
  "atan2 y x =
     (if 0 < x then arctan (y / x)
      else if x < 0 then (if 0 \<le> y then arctan (y / x) + pi else arctan (y / x) - pi)
      else if 0 < y then pi / 2
      else if y < 0 then - (pi / 2)
      else 0)"

text \<open>
  Coordinates and distances are JavaScript numbers, modelled by the reals they
  approximate.  (\<open>a\<close> lies between 0 and 1, so both square roots are of
  non-negative numbers.)
\<close>

definition haversineDistance :: "real \<Rightarrow> real \<Rightarrow> real \<Rightarrow> real \<Rightarrow> real" where
  "haversineDistance lat1 lng1 lat2 lng2 =
     (let R = 6371;
          dLat = degreesToRadians (lat2 - lat1);
          dLng = degreesToRadians (lng2 - lng1);
          a = sin (dLat / 2) * sin (dLat / 2) +
              cos (degreesToRadians lat1) * cos (degreesToRadians lat2) *
              sin (dLng / 2) * sin (dLng / 2);
          c = 2 * atan2 (sqrt a) (sqrt (1 - a))
      in R * c)"

section \<open>Smart buffer (simulation utilities)\<close>

record BufferConfiguration =
  baseBufferMinutes :: real
  minimumBufferMinutes :: real
  maximumBufferMinutes :: real
  flexibleFactor :: real
  locationFactor :: real
  durationFactor :: real

definition DEFAULT_BUFFER_CONFIG :: BufferConfiguration where
  "DEFAULT_BUFFER_CONFIG =
     \<lparr> baseBufferMinutes = 45, minimumBufferMinutes = 15, maximumBufferMinutes = 120,
       flexibleFactor = 0.8, locationFactor = 1.0, durationFactor = 1.0 \<rparr>"

text \<open>
  \<open>calculateSmartBuffer\<close> updates one local variable \<open>buffer\<close> in four steps.
  Each step is a function of the value before it, in the order of the source:
  the flexibility factor, the duration factor, the distance surcharge, and the
  clamp with the final \<open>Math.round\<close>.
\<close>

definition bufferAfterFlexibility ::
  "Appointment \<Rightarrow> Appointment \<Rightarrow> BufferConfiguration \<Rightarrow> real" where
  "bufferAfterFlexibility apt1 apt2 config =
     (let buffer = baseBufferMinutes config in
      if \<not> isInflexible apt1 \<and> \<not> isInflexible apt2 then buffer * flexibleFactor config
      else buffer)"

definition bufferAfterDuration ::
  "Appointment \<Rightarrow> Appointment \<Rightarrow> BufferConfiguration \<Rightarrow> real" where
  "bufferAfterDuration apt1 apt2 config =
     (let buffer = bufferAfterFlexibility apt1 apt2 config;
          avgDuration = (real_of_int (visitDurationMinutes apt1) +
                         real_of_int (visitDurationMinutes apt2)) / 2
      in if avgDuration > 60 then buffer * 1.2
         else if avgDuration < 30 then buffer * 0.9
         else buffer)"

text \<open>
  The guard \<open>apt1.latitude && apt1.longitude && apt2.latitude && apt2.longitude\<close>
  of the distance step: the coordinates count as known when all four are
  truthy.  A number is truthy when it is not 0.
\<close>

definition coordinatesKnown :: "Appointment \<Rightarrow> Appointment \<Rightarrow> bool" where
  "coordinatesKnown apt1 apt2 =
     (latitude apt1 \<noteq> 0 \<and> longitude apt1 \<noteq> 0 \<and> latitude apt2 \<noteq> 0 \<and> longitude apt2 \<noteq> 0)"

definition bufferAfterDistance ::
  "Appointment \<Rightarrow> Appointment \<Rightarrow> BufferConfiguration \<Rightarrow> real" where
  "bufferAfterDistance apt1 apt2 config =
     (let buffer = bufferAfterDuration apt1 apt2 config in
      if coordinatesKnown apt1 apt2 then
        let distance = haversineDistance (latitude apt1) (longitude apt1)
                         (latitude apt2) (longitude apt2)
        in if distance > 10 then buffer + 15
           else if distance > 50 then buffer + 30
           else buffer
      else buffer)"

definition calculateSmartBuffer ::
  "Appointment \<Rightarrow> Appointment \<Rightarrow> BufferConfiguration \<Rightarrow> int" where
  "calculateSmartBuffer apt1 apt2 config =
     (let buffer = bufferAfterDistance apt1 apt2 config;
          buffer = max (minimumBufferMinutes config) (min (maximumBufferMinutes config) buffer)
      in round buffer)"

section \<open>All conflicts of a schedule (simulation utilities)\<close>

text \<open>\<open>getAppointmentPairs\<close>: every pair \<open>(i, j)\<close> with \<open>i < j\<close>, in index order.\<close>

fun getAppointmentPairs :: "'a list \<Rightarrow> ('a \<times> 'a) list" where
  "getAppointmentPairs [] = []"
| "getAppointmentPairs (x # xs) = map (\<lambda>y. (x, y)) xs @ getAppointmentPairs xs"

text \<open>
  \<open>groupAppointmentsByDate\<close> (and the same loop written out in the optimizer
  and the simulators): a \<open>Map\<close> keeps its keys in the order of first
  insertion, so it is an association list.
\<close>

fun groupInsert :: "Appointment \<Rightarrow> (string \<times> Appointment list) list \<Rightarrow> (string \<times> Appointment list) list"
  where
  "groupInsert apt [] = [(date apt, [apt])]"
| "groupInsert apt ((d, xs) # rest) =
     (if d = date apt then (d, xs @ [apt]) # rest else (d, xs) # groupInsert apt rest)"

definition groupAppointmentsByDate :: "Appointment list \<Rightarrow> (string \<times> Appointment list) list" where
  "groupAppointmentsByDate appts = fold groupInsert appts []"

definition findAllConflicts :: "Appointment list \<Rightarrow> SchedulingConflict list" where
  "findAllConflicts appts =
     List.map_filter
       (\<lambda>(apt1, apt2). if date apt1 \<noteq> date apt2 then None else detectConflict apt1 apt2)
       (getAppointmentPairs appts)"

section \<open>Reorderings (simulation utilities)\<close>

text \<open>
  \<open>permute\<close>: for each index \<open>i\<close> in turn, the element at \<open>i\<close> in front of every
  permutation of the others.
\<close>

fun permute :: "'a list \<Rightarrow> 'a list list" where
  "permute arr =
     (if length arr \<le> 1 then [arr]
      else concat (map (\<lambda>i. map (\<lambda>perm. arr ! i # perm)
                                 (permute (take i arr @ drop (Suc i) arr)))
                       [0..<length arr]))"

declare permute.simps [simp del]

text \<open>Reading an array at an index: \<open>undefined\<close> (here \<open>None\<close>) past the end.\<close>

definition arrayAt :: "'a list \<Rightarrow> nat \<Rightarrow> 'a option" where
  "arrayAt xs i = (if i < length xs then Some (xs ! i) else None)"

text \<open>
  The \<open>forEach\<close> of \<open>generateReorderings\<close>, with its counter \<open>flexIndex\<close>: an
  inflexible appointment keeps its place, a flexible place takes
  \<open>flexiblePerm[flexIndex++]\<close>.
\<close>

fun interleave :: "Appointment list \<Rightarrow> Appointment list \<Rightarrow> nat \<Rightarrow> Appointment option list" where
  "interleave [] flexiblePerm flexIndex = []"
| "interleave (orig # rest) flexiblePerm flexIndex =
     (if isInflexible orig then Some orig # interleave rest flexiblePerm flexIndex
      else arrayAt flexiblePerm flexIndex # interleave rest flexiblePerm (Suc flexIndex))"

text \<open>
  \<open>generateReorderings\<close>.  (The list \<open>sortedInflexible\<close> that the source computes
  for each permutation is never read.)  An entry of a reordering is an
  appointment or \<open>undefined\<close>.
\<close>

definition generateReorderings :: "Appointment list \<Rightarrow> Appointment option list list" where
  "generateReorderings appts =
     (let inflexibleApts = filter isInflexible appts;
          flexibleApts = filter (\<lambda>apt. \<not> isInflexible apt) appts
      in if length inflexibleApts = 0 \<or> length flexibleApts = 0 then [map Some appts]
         else map (\<lambda>flexiblePerm. interleave appts flexiblePerm 0) (permute flexibleApts))"

section \<open>Sample data\<close>

text \<open>An appointment on 2024-01-15, for the concrete instances below.\<close>

definition sampleAppointment ::
  "string \<Rightarrow> int \<Rightarrow> string option \<Rightarrow> flexibility \<Rightarrow> real \<Rightarrow> real \<Rightarrow> Appointment" where
  "sampleAppointment name minutes start flex lat lng =
     \<lparr> ident = name, appName = name, visitDurationMinutes = minutes, startTime = start,
       date = ''2024-01-15'', flexibility = flex, latitude = lat, longitude = lng \<rparr>"

definition reorderSample :: "Appointment list" where
  "reorderSample =
     [sampleAppointment ''F1'' 30 None flexible 1 1,
      sampleAppointment ''A'' 30 (Some ''09:00'') inflexible 1 1,
      sampleAppointment ''F2'' 30 None flexible 1 1]"

section \<open>Solutions and their score (src/lib/simulation/scoring.ts)\<close>

datatype changeType = reorder | reschedule | buffer_adjust | duration_adjust

record ScheduleChange =
  changeType :: changeType
  appointmentId :: string
  appointmentName :: string
  originalTime :: string
  proposedTime :: string
  reason :: string
  impactMinutes :: real

record SimulationStats =
  totalScenariosTested :: nat
  feasibleScenarios :: nat
  bestScenarioGapMinutes :: real
  worstScenarioGapMinutes :: real
  averageGapMinutes :: real
  reorderingsTested :: nat
  buffersTested :: nat

datatype feasibility = feasible | infeasible

text \<open>
  \<open>Solution\<close>.  The scorer tests \<open>!solution.statistics\<close>, so the field is
  optional here: \<open>None\<close> is a solution without statistics.
\<close>

record Solution =
  changes :: "ScheduleChange list"
  successRate :: real
  impactScore :: real
  feasibility :: feasibility
  reasoning :: "string list"
  statistics :: "SimulationStats option"

text \<open>
  \<open>calculateDisruptionScore\<close>: the loop adds each change's \<open>impactMinutes\<close> to
  \<open>totalImpactMinutes\<close> and 480 to \<open>maxPossibleImpact\<close>.  (Its parameter
  \<open>originalAppointments\<close> is never read.)
\<close>

definition calculateDisruptionScore :: "Solution \<Rightarrow> real" where
  "calculateDisruptionScore solution =
     (if length (changes solution) = 0 then 0
      else
        let (totalImpactMinutes, maxPossibleImpact) =
              fold (\<lambda>change (total, possible). (total + impactMinutes change, possible + 480))
                   (changes solution) (0, 0);
            disruptionScore = (totalImpactMinutes / max maxPossibleImpact 1) * 100
        in min 100 (real_of_int (round (disruptionScore * 10)) / 10))"

text \<open>
  \<open>calculateBufferDeviationScore\<close>.  A division by a zero \<open>targetGap\<close> gives
  \<open>Infinity\<close> or \<open>-Infinity\<close> in JavaScript (the best gap is not 0 at that
  point); the first is above every threshold, the second below.
\<close>

definition calculateBufferDeviationScore :: "Solution \<Rightarrow> BufferConfiguration \<Rightarrow> real" where
  "calculateBufferDeviationScore solution config =
     (case statistics solution of
        None \<Rightarrow> 0
      | Some stats \<Rightarrow>
          if bestScenarioGapMinutes stats = 0 then 0
          else
            let bestGap = bestScenarioGapMinutes stats;
                targetGap = baseBufferMinutes config
            in if targetGap = 0 then (if bestGap > 0 then 100 else 0)
               else
                 let deviationRatio = bestGap / targetGap
                 in if deviationRatio \<le> 1.0 then 0
                    else if deviationRatio \<le> 1.5 then 25
                    else if deviationRatio \<le> 2.0 then 60
                    else 100)"

definition calculateImpactScore :: "Solution \<Rightarrow> BufferConfiguration \<Rightarrow> real" where
  "calculateImpactScore solution config =
     (let disruption = calculateDisruptionScore solution;
          successPenalty = (1 - successRate solution) * 100;
          bufferDeviation = calculateBufferDeviationScore solution config;
          impactScore = (disruption * 0.4) + (successPenalty * 0.3) + (bufferDeviation * 0.3)
      in real_of_int (round (impactScore * 100)) / 100)"







section \<open>Reordering simulator\<close>

text \<open>Reading a property of \<open>undefined\<close> throws a \<open>TypeError\<close>.\<close>

datatype jsError = TypeError

text \<open>\<open>Array.prototype.findIndex\<close>: the first index that satisfies the test, or -1.\<close>

fun findIndexFrom :: "('a \<Rightarrow> bool) \<Rightarrow> 'a list \<Rightarrow> int \<Rightarrow> int" where
  "findIndexFrom P [] i = - 1"
| "findIndexFrom P (x # xs) i = (if P x then i else findIndexFrom P xs (i + 1))"

definition findIndex :: "('a \<Rightarrow> bool) \<Rightarrow> 'a list \<Rightarrow> int" where
  "findIndex P xs = findIndexFrom P xs 0"

text \<open>
  The \<open>forEach\<close> of \<open>createReorderingSolution\<close> over the reordered list, from
  position \<open>index\<close> on: one \<open>reorder\<close> change for each appointment that is not at
  its original index.
\<close>

fun reorderChanges :: "Appointment list \<Rightarrow> Appointment list \<Rightarrow> nat \<Rightarrow> ScheduleChange list" where
  "reorderChanges [] original index = []"
| "reorderChanges (apt # rest) original index =
     (let origIndex = findIndex (\<lambda>a. ident a = ident apt) original
      in (if origIndex \<noteq> int index then
            [\<lparr> changeType = reorder,
               appointmentId = ident apt,
               appointmentName = appName apt,
               originalTime = minutesToTime (Some (int index * 30)),
               proposedTime = minutesToTime (Some (int index * 30)),
               reason = ''Reordered to resolve scheduling conflict'',
               impactMinutes = real_of_int (\<bar>int index - origIndex\<bar> * 30) \<rparr>]
          else [])
         @ reorderChanges rest original (Suc index))"

definition createReorderingSolution ::
  "Appointment list \<Rightarrow> Appointment list \<Rightarrow> SchedulingConflict list \<Rightarrow> nat \<Rightarrow> bool \<Rightarrow> Solution"
  where
  "createReorderingSolution reordered original conflicts scenariosTested isFeasible =
     \<lparr> changes = reorderChanges reordered original 0,
       successRate = 0,
       impactScore = 0,
       feasibility = (if isFeasible then feasible else infeasible),
       reasoning =
         [if isFeasible
          then ''Successfully reordered '' @ natToString (length reordered)
               @ '' appointments with no conflicts''
          else ''Attempted reordering but '' @ natToString (length conflicts)
               @ '' conflicts remain''],
       statistics = Some
         \<lparr> totalScenariosTested = scenariosTested,
           feasibleScenarios = (if isFeasible then 1 else 0),
           bestScenarioGapMinutes = 0,
           worstScenarioGapMinutes = 0,
           averageGapMinutes = 0,
           reorderingsTested = 1,
           buffersTested = 0 \<rparr> \<rparr>"

text \<open>
  \<open>calculateBestGap\<close>, \<open>calculateWorstGap\<close>, \<open>calculateAverageGap\<close>: each reads
  \<open>s.statistics\<close> of every solution and keeps the positive gaps.
\<close>

definition calculateBestGap :: "Solution list \<Rightarrow> jsError + real" where
  "calculateBestGap sols =
     (case those (map statistics sols) of
        None \<Rightarrow> Inl TypeError
      | Some stats \<Rightarrow>
          let gaps = filter (\<lambda>g. g > 0) (map bestScenarioGapMinutes stats)
          in Inr (if length gaps > 0 then Max (set gaps) else 0))"

definition calculateWorstGap :: "Solution list \<Rightarrow> jsError + real" where
  "calculateWorstGap sols =
     (case those (map statistics sols) of
        None \<Rightarrow> Inl TypeError
      | Some stats \<Rightarrow>
          let gaps = filter (\<lambda>g. g > 0) (map worstScenarioGapMinutes stats)
          in Inr (if length gaps > 0 then Min (set gaps) else 0))"

definition calculateAverageGap :: "Solution list \<Rightarrow> jsError + real" where
  "calculateAverageGap sols =
     (case those (map statistics sols) of
        None \<Rightarrow> Inl TypeError
      | Some stats \<Rightarrow>
          let gaps = filter (\<lambda>g. g > 0) (map averageGapMinutes stats)
          in Inr (if length gaps = 0 then 0 else sum_list gaps / real (length gaps)))"

text \<open>The three variables that the loops of \<open>simulateReordering\<close> update.\<close>

record reorderState =
  solutions :: "Solution list"
  scenariosTested :: nat
  feasibleCount :: nat

text \<open>
  The inner \<open>for\<close> loop over the reorderings of one date: it stops at the end of
  the list or when \<open>scenariosTested\<close> reaches the cap.  \<open>findAllConflicts\<close> reads
  \<open>.date\<close> of the entries and \<open>createReorderingSolution\<close> reads \<open>.id\<close>, so an
  \<open>undefined\<close> entry throws.
\<close>

fun testReorderings ::
  "nat \<Rightarrow> Appointment list \<Rightarrow> Appointment option list list \<Rightarrow> reorderState
     \<Rightarrow> jsError + reorderState" where
  "testReorderings maxReorderingScenarios dayAppointments [] st = Inr st"
| "testReorderings maxReorderingScenarios dayAppointments (r # rs) st =
     (if scenariosTested st < maxReorderingScenarios then
        (case those r of
           None \<Rightarrow> Inl TypeError
         | Some reordered \<Rightarrow>
             let conflicts = findAllConflicts reordered;
                 tested = scenariosTested st + 1;
                 isFeasible = (length conflicts = 0);
                 solution = createReorderingSolution reordered dayAppointments conflicts
                              tested isFeasible
             in testReorderings maxReorderingScenarios dayAppointments rs
                  \<lparr> solutions = solutions st @ [solution],
                    scenariosTested = tested,
                    feasibleCount = (if isFeasible then feasibleCount st + 1
                                     else feasibleCount st) \<rparr>)
      else Inr st)"

text \<open>The body of \<open>byDate.forEach\<close> for one date.\<close>

definition simulateDay :: "nat \<Rightarrow> Appointment list \<Rightarrow> reorderState \<Rightarrow> jsError + reorderState" where
  "simulateDay maxReorderingScenarios dayAppointments st =
     (if length dayAppointments < 2 then Inr st
      else
        let flexibleCount = length (filter (\<lambda>apt. \<not> isInflexible apt) dayAppointments)
        in if flexibleCount = 0 then Inr st
           else testReorderings maxReorderingScenarios dayAppointments
                  (generateReorderings dayAppointments) st)"

fun simulateDays ::
  "nat \<Rightarrow> (string \<times> Appointment list) list \<Rightarrow> reorderState \<Rightarrow> jsError + reorderState" where
  "simulateDays maxReorderingScenarios [] st = Inr st"
| "simulateDays maxReorderingScenarios ((d, dayAppointments) # rest) st =
     (case simulateDay maxReorderingScenarios dayAppointments st of
        Inl e \<Rightarrow> Inl e
      | Inr st' \<Rightarrow> simulateDays maxReorderingScenarios rest st')"

text \<open>The state after the loops over all dates.\<close>

definition reorderingScenarios :: "Appointment list \<Rightarrow> nat \<Rightarrow> jsError + reorderState" where
  "reorderingScenarios appts maxReorderingScenarios =
     simulateDays maxReorderingScenarios (groupAppointmentsByDate appts)
       \<lparr> solutions = [], scenariosTested = 0, feasibleCount = 0 \<rparr>"

definition finalStats :: "reorderState \<Rightarrow> jsError + SimulationStats" where
  "finalStats st =
     (case calculateBestGap (solutions st) of
        Inl e \<Rightarrow> Inl e
      | Inr best \<Rightarrow>
     (case calculateWorstGap (solutions st) of
        Inl e \<Rightarrow> Inl e
      | Inr worst \<Rightarrow>
     (case calculateAverageGap (solutions st) of
        Inl e \<Rightarrow> Inl e
      | Inr average \<Rightarrow>
          Inr \<lparr> totalScenariosTested = scenariosTested st,
                feasibleScenarios = feasibleCount st,
                bestScenarioGapMinutes = best,
                worstScenarioGapMinutes = worst,
                averageGapMinutes = average,
                reorderingsTested = scenariosTested st,
                buffersTested = 0 \<rparr>)))"

text \<open>
  \<open>simulateReordering\<close>.  Its parameter \<open>config\<close> is never read: the ranking
  calls \<open>calculateImpactScore(solution)\<close> with the default configuration.
  The comparator \<open>a.impactScore - b.impactScore\<close> orders by a key, and
  \<open>Array.prototype.sort\<close> is stable, as \<open>sort_key\<close> is.
\<close>

definition simulateReordering ::
  "Appointment list \<Rightarrow> nat \<Rightarrow> BufferConfiguration \<Rightarrow> jsError + Solution list" where
  "simulateReordering appts maxReorderingScenarios config =
     (case reorderingScenarios appts maxReorderingScenarios of
        Inl e \<Rightarrow> Inl e
      | Inr st \<Rightarrow>
          let rate = (if scenariosTested st > 0
                      then real (feasibleCount st) / real (scenariosTested st) else 0)
          in (case finalStats st of
                Inl e \<Rightarrow> Inl e
              | Inr stats \<Rightarrow>
                  let updated = map (\<lambda>solution. solution\<lparr> successRate := rate,
                                                           statistics := Some stats \<rparr>)
                                    (solutions st)
                  in Inr (sort_key (\<lambda>solution. calculateImpactScore solution DEFAULT_BUFFER_CONFIG)
                            updated)))"

section \<open>Invariants of the simulators\<close>

text \<open>A solution whose statistics are present with the three gaps at 0.\<close>

definition zeroGaps :: "Solution \<Rightarrow> bool" where
  "zeroGaps s \<longleftrightarrow>
     (\<exists>stats. statistics s = Some stats \<and> bestScenarioGapMinutes stats = 0 \<and>
        worstScenarioGapMinutes stats = 0 \<and> averageGapMinutes stats = 0)"

text \<open>
  What the loops of \<open>simulateReordering\<close> keep true: one solution per tested
  scenario, never more scenarios than the cap, and \<open>feasibleCount\<close> counting the
  feasible solutions.
\<close>

definition reorderInv :: "nat \<Rightarrow> reorderState \<Rightarrow> bool" where
  "reorderInv cap st \<longleftrightarrow>
     length (solutions st) = scenariosTested st \<and> scenariosTested st \<le> cap \<and>
     feasibleCount st = length (filter (\<lambda>s. feasibility s = feasible) (solutions st)) \<and>
     (\<forall>s \<in> set (solutions st). zeroGaps s)"

section \<open>Conflict resolution orchestrator (simulation scheduler)\<close>

record ConflictResolution =
  conflict :: SchedulingConflict
  rankedSolutions :: "Solution list"
  recommendedSolution :: "Solution option"

text \<open>\<open>SimulationOptions\<close>: every field is optional.\<close>

record SimulationOptions =
  maxReorderings :: "nat option"
  testBufferSizes :: "real list option"
  runRescheduling :: "bool option"
  config :: "BufferConfiguration option"
  timeLimitMs :: "int option"

definition DEFAULT_SIMULATION_OPTIONS :: SimulationOptions where
  "DEFAULT_SIMULATION_OPTIONS =
     \<lparr> maxReorderings = Some 50,
       testBufferSizes = Some [30, 35, 40, 45, 50, 55, 60],
       runRescheduling = Some True,
       config = Some DEFAULT_BUFFER_CONFIG,
       timeLimitMs = Some 2000 \<rparr>"

text \<open>\<open>{ ...DEFAULT_SIMULATION_OPTIONS, ...options }\<close>: a field that is present wins.\<close>

definition mergeOptions :: "SimulationOptions \<Rightarrow> SimulationOptions \<Rightarrow> SimulationOptions" where
  "mergeOptions defaults options =
     \<lparr> maxReorderings =
         (case maxReorderings options of None \<Rightarrow> maxReorderings defaults | Some v \<Rightarrow> Some v),
       testBufferSizes =
         (case testBufferSizes options of None \<Rightarrow> testBufferSizes defaults | Some v \<Rightarrow> Some v),
       runRescheduling =
         (case runRescheduling options of None \<Rightarrow> runRescheduling defaults | Some v \<Rightarrow> Some v),
       config = (case config options of None \<Rightarrow> config defaults | Some v \<Rightarrow> Some v),
       timeLimitMs =
         (case timeLimitMs options of None \<Rightarrow> timeLimitMs defaults | Some v \<Rightarrow> Some v) \<rparr>"

text \<open>
  The loop of \<open>runConflictSimulations\<close> over the conflicts.  \<open>now k\<close> is the
  value of the \<open>k\<close>-th call of \<open>Date.now()\<close>; the loop reads the clock once per
  conflict and breaks when the time limit is exceeded (\<open>startedAt\<close> is the
  local \<open>startTime\<close> of the source).  The per-conflict work
  (\<open>resolveConflict\<close>, which runs the three strategy simulators, explains and
  ranks) is the parameter \<open>resolveConflict\<close>.  Beside the resolutions the loop
  counts the calls of \<open>resolveConflict\<close>: the second component is not in the
  source, it records how often the simulators were started.
\<close>

fun resolveEach ::
  "(SchedulingConflict \<Rightarrow> Appointment list \<Rightarrow> SimulationOptions \<Rightarrow> ConflictResolution)
     \<Rightarrow> (nat \<Rightarrow> int) \<Rightarrow> int \<Rightarrow> SimulationOptions \<Rightarrow> Appointment list
     \<Rightarrow> SchedulingConflict list \<Rightarrow> nat \<Rightarrow> ConflictResolution list \<times> nat
     \<Rightarrow> ConflictResolution list \<times> nat" where
  "resolveEach resolveConflict now startedAt opts appts [] k (resolutions, calls) =
     (resolutions, calls)"
| "resolveEach resolveConflict now startedAt opts appts (c # cs) k (resolutions, calls) =
     (if (case timeLimitMs opts of None \<Rightarrow> False | Some limit \<Rightarrow> now k - startedAt > limit)
      then (resolutions, calls)
      else resolveEach resolveConflict now startedAt opts appts cs (Suc k)
             (resolutions @ [resolveConflict c appts opts], Suc calls))"

definition runConflictSimulations ::
  "(SchedulingConflict \<Rightarrow> Appointment list \<Rightarrow> SimulationOptions \<Rightarrow> ConflictResolution)
     \<Rightarrow> (nat \<Rightarrow> int) \<Rightarrow> Appointment list \<Rightarrow> SimulationOptions
     \<Rightarrow> ConflictResolution list \<times> nat" where
  "runConflictSimulations resolveConflict now appts options =
     (let opts = mergeOptions DEFAULT_SIMULATION_OPTIONS options;
          startedAt = now 0;
          conflicts = findAllConflicts appts
      in if length conflicts = 0 then ([], 0)
         else resolveEach resolveConflict now startedAt opts appts conflicts 1 ([], 0))"

definition flexibleSample :: "Appointment list" where
  "flexibleSample =
     [sampleAppointment ''F1'' 30 None flexible 1 1,
      sampleAppointment ''F2'' 45 None flexible 2 2,
      sampleAppointment ''F3'' 60 None flexible 3 3]"

section \<open>Route builder (src/lib/algorithm/optimizer.ts, validator.ts)\<close>

subsection \<open>The travel-cost lookup\<close>

record DistanceResult =
  distance :: real
  duration :: int

text \<open>
  \<open>getDistanceMatrix(from, [to])\<close> asks an external service.  A call throws
  (no API key, a failed request, a malformed answer) or returns a list of
  results.  The route builder always asks for one destination; the model takes
  the outcome for each pair of coordinates as a parameter \<open>getDistanceMatrix\<close>.
\<close>

datatype lookup = LookupThrows | LookupResults "DistanceResult list"

type_synonym distanceMatrix = "real \<times> real \<Rightarrow> real \<times> real \<Rightarrow> lookup"

definition coordinates :: "Appointment \<Rightarrow> real \<times> real" where
  "coordinates apt = (latitude apt, longitude apt)"

definition geodesic :: "Appointment \<Rightarrow> Appointment \<Rightarrow> real" where
  "geodesic fromApt toApt =
     haversineDistance (latitude fromApt) (longitude fromApt) (latitude toApt) (longitude toApt)"

subsection \<open>Feasibility pre-check\<close>

text \<open>
  \<open>Array.prototype.sort\<close> with a comparator: a stable insertion sort, an element
  moves behind another only when the comparator is positive (\<open>NaN\<close> counts as
  0).  For a comparator that is a consistent order, as the difference of two
  parsed start times is, every stable sort gives this result.
\<close>

fun insertSorted :: "('a \<Rightarrow> 'a \<Rightarrow> jsnum) \<Rightarrow> 'a \<Rightarrow> 'a list \<Rightarrow> 'a list" where
  "insertSorted cmp x [] = [x]"
| "insertSorted cmp x (y # ys) =
     (if jsGt (cmp x y) (Some 0) then y # insertSorted cmp x ys else x # y # ys)"

definition sortWith :: "('a \<Rightarrow> 'a \<Rightarrow> jsnum) \<Rightarrow> 'a list \<Rightarrow> 'a list" where
  "sortWith cmp xs = foldr (insertSorted cmp) xs []"

text \<open>
  The comparator of the inflexible appointments:
  \<open>if (!a.startTime || !b.startTime) return 0; return timeToMinutes(a.startTime) - timeToMinutes(b.startTime)\<close>.
\<close>

definition compareStartTimes :: "Appointment \<Rightarrow> Appointment \<Rightarrow> jsnum" where
  "compareStartTimes a b =
     (case (truthyStartTime a, truthyStartTime b) of
        (Some s, Some t) \<Rightarrow> jsSub (timeToMinutes s) (timeToMinutes t)
      | _ \<Rightarrow> Some 0)"

text \<open>The two messages of \<open>checkScheduleFeasibility\<close>, with the values they print.\<close>

datatype feasibilityIssue =
  TooClose string Appointment Appointment
| MaybeUnreachable string Appointment Appointment int int

fun tooClosePairs :: "string \<Rightarrow> Appointment list \<Rightarrow> feasibilityIssue list" where
  "tooClosePairs d (current # next # rest) =
     (case (truthyStartTime current, truthyStartTime next) of
        (Some s, Some t) \<Rightarrow>
          let timeGap = jsSub (timeToMinutes t) (timeToMinutes s);
              minTimeNeeded = visitDurationMinutes current
          in if jsLt timeGap (Some minTimeNeeded) then [TooClose d current next] else []
      | _ \<Rightarrow> [])
     @ tooClosePairs d (next # rest)"
| "tooClosePairs d _ = []"

fun unreachablePairs :: "string \<Rightarrow> Appointment list \<Rightarrow> feasibilityIssue list" where
  "unreachablePairs d (current # next # rest) =
     (case (truthyStartTime current, truthyStartTime next) of
        (Some s, Some t) \<Rightarrow>
          (case jsSub (timeToMinutes t) (timeToMinutes s) of
             None \<Rightarrow> []
           | Some timeGap \<Rightarrow>
               let geodesicDist = geodesic current next
               in if geodesicDist > 200 \<and> timeGap < 120
                  then [MaybeUnreachable d current next (round geodesicDist) timeGap] else [])
      | _ \<Rightarrow> [])
     @ unreachablePairs d (next # rest)"
| "unreachablePairs d _ = []"

definition checkScheduleFeasibility :: "Appointment list \<Rightarrow> feasibilityIssue list" where
  "checkScheduleFeasibility appts =
     concat (map (\<lambda>(d, dayAppointments).
                    let inflexibleApts = sortWith compareStartTimes
                                           (filter isInflexible dayAppointments)
                    in tooClosePairs d inflexibleApts @ unreachablePairs d inflexibleApts)
                 (groupAppointmentsByDate appts))"

text \<open>The four reasons of \<open>canOptimizeRoute\<close>, with the values they print.\<close>

datatype optimizeReason =
  AllInflexible
| LimitedOptimization nat nat
| Infeasible "feasibilityIssue list"
| Scheduled nat nat nat

definition canOptimizeRoute :: "Appointment list \<Rightarrow> bool \<times> optimizeReason" where
  "canOptimizeRoute appts =
     (let total = length appts;
          inflexibleCount = length (filter isInflexible appts);
          flexibleCount = length (filter (\<lambda>apt. \<not> isInflexible apt) appts)
      in if flexibleCount = 0 then (False, AllInflexible)
         else
           let ratio = real inflexibleCount / real total
           in if ratio > 0.8 then (True, LimitedOptimization flexibleCount total)
              else
                let feasibilityErrors = checkScheduleFeasibility appts
                in if length feasibilityErrors > 0 then (False, Infeasible feasibilityErrors)
                   else (True, Scheduled total inflexibleCount flexibleCount))"

subsection \<open>Ordering one day\<close>

text \<open>
  One step of the loop of \<open>calculateRouteCost\<close>: the looked-up distance, or the
  geodesic distance in metres when the lookup is empty or throws.
\<close>

definition legCost :: "distanceMatrix \<Rightarrow> Appointment \<Rightarrow> Appointment \<Rightarrow> real" where
  "legCost getDistanceMatrix fromApt toApt =
     (case getDistanceMatrix (coordinates fromApt) (coordinates toApt) of
        LookupResults (r # _) \<Rightarrow> distance r
      | LookupResults [] \<Rightarrow> geodesic fromApt toApt * 1000
      | LookupThrows \<Rightarrow> geodesic fromApt toApt * 1000)"

definition calculateRouteCost :: "distanceMatrix \<Rightarrow> Appointment list \<Rightarrow> real" where
  "calculateRouteCost getDistanceMatrix appts =
     (if length appts \<le> 1 then 0
      else fold (\<lambda>(fromApt, toApt) totalCost. totalCost + legCost getDistanceMatrix fromApt toApt)
                (zip appts (tl appts)) 0)"

text \<open>\<open>testOrder.splice(position, 0, flexibleApt)\<close>.\<close>

definition spliceIn :: "nat \<Rightarrow> 'a \<Rightarrow> 'a list \<Rightarrow> 'a list" where
  "spliceIn position x xs = take position xs @ x # drop position xs"

text \<open>
  \<open>insertFlexibleAppointment\<close>: the loop over the positions keeps the first
  position of lowest cost; \<open>bestCost\<close> starts at \<open>Infinity\<close> (here \<open>None\<close>).
\<close>

definition insertFlexibleAppointment ::
  "distanceMatrix \<Rightarrow> Appointment \<Rightarrow> Appointment list \<Rightarrow> Appointment list" where
  "insertFlexibleAppointment getDistanceMatrix flexibleApt orderedAppointments =
     (if length orderedAppointments = 0 then [flexibleApt]
      else
        let (bestPosition, bestCost) =
              fold (\<lambda>position (bestPosition, bestCost).
                      let testOrder = spliceIn position flexibleApt orderedAppointments;
                          cost = calculateRouteCost getDistanceMatrix testOrder
                      in if (case bestCost of None \<Rightarrow> True | Some best \<Rightarrow> cost < best)
                         then (position, Some cost) else (bestPosition, bestCost))
                   [0..<length orderedAppointments + 1] (0, None)
        in spliceIn bestPosition flexibleApt orderedAppointments)"

definition optimizeInflexiblePositions ::
  "Appointment list \<Rightarrow> Appointment list \<Rightarrow> Appointment list" where
  "optimizeInflexiblePositions currentOrder inflexibleList = currentOrder"

subsection \<open>Timing the route\<close>

record VisitStop =
  appointment :: Appointment
  order :: nat
  arrivalTime :: string
  travelTimeFromPrevious :: int
  distanceFromPrevious :: real
  status :: arrivalStatus
  minutesFromPreferred :: jsnum

record RouteDetails =
  stops :: "VisitStop list"
  totalDistance :: real
  totalDriveTime :: int
  totalVisitTime :: int

definition GRACE_PERIOD_MINUTES :: int where
  "GRACE_PERIOD_MINUTES = 15"

datatype routeError = NoAppointments | CannotOptimize optimizeReason | LookupFailed

text \<open>
  The travel time and distance of one leg in \<open>calculateRoute\<close>.  Here the lookup
  is not inside a \<open>try\<close>: when it throws, so does \<open>calculateRoute\<close>.
\<close>

definition travelLeg :: "distanceMatrix \<Rightarrow> Appointment \<Rightarrow> Appointment \<Rightarrow> routeError + int \<times> real" where
  "travelLeg getDistanceMatrix prevApt currentApt =
     (case getDistanceMatrix (coordinates prevApt) (coordinates currentApt) of
        LookupThrows \<Rightarrow> Inl LookupFailed
      | LookupResults (r # _) \<Rightarrow> Inr (duration r, distance r)
      | LookupResults [] \<Rightarrow>
          let geodesicDist = geodesic prevApt currentApt
          in Inr (round (geodesicDist * 1.2), geodesicDist * 1000))"

text \<open>
  The loop of \<open>calculateRoute\<close> from index \<open>i\<close> on: \<open>prevApt\<close> is the appointment
  at \<open>i - 1\<close>, \<open>currentTime\<close> the clock, \<open>acc\<close> the stops and totals so far.
\<close>

fun routeLoop ::
  "distanceMatrix \<Rightarrow> Appointment \<Rightarrow> Appointment list \<Rightarrow> nat \<Rightarrow> jsnum \<Rightarrow> RouteDetails
     \<Rightarrow> routeError + RouteDetails" where
  "routeLoop getDistanceMatrix prevApt [] i currentTime acc = Inr acc"
| "routeLoop getDistanceMatrix prevApt (currentApt # rest) i currentTime acc =
     (case travelLeg getDistanceMatrix prevApt currentApt of
        Inl e \<Rightarrow> Inl e
      | Inr (travelTime, legDistance) \<Rightarrow>
          let currentTime = jsAdd currentTime (Some (visitDurationMinutes prevApt + travelTime));
              stop = \<lparr> appointment = currentApt,
                       order = i + 1,
                       arrivalTime = minutesToTime currentTime,
                       travelTimeFromPrevious = travelTime,
                       distanceFromPrevious = legDistance,
                       status = getArrivalStatus (minutesToTime currentTime)
                                  (case truthyStartTime currentApt of
                                     Some s \<Rightarrow> s | None \<Rightarrow> minutesToTime currentTime)
                                  GRACE_PERIOD_MINUTES,
                       minutesFromPreferred =
                         (case truthyStartTime currentApt of
                            Some s \<Rightarrow> jsAbs (jsSub (timeToMinutes (minutesToTime currentTime))
                                                     (timeToMinutes s))
                          | None \<Rightarrow> Some 0) \<rparr>
          in routeLoop getDistanceMatrix currentApt rest (i + 1) currentTime
               \<lparr> stops = stops acc @ [stop],
                 totalDistance = totalDistance acc + legDistance,
                 totalDriveTime = totalDriveTime acc + travelTime,
                 totalVisitTime = totalVisitTime acc + visitDurationMinutes currentApt \<rparr>)"

definition calculateRoute :: "distanceMatrix \<Rightarrow> Appointment list \<Rightarrow> routeError + RouteDetails" where
  "calculateRoute getDistanceMatrix orderedAppointments =
     (case orderedAppointments of
        [] \<Rightarrow> Inr \<lparr> stops = [], totalDistance = 0, totalDriveTime = 0, totalVisitTime = 0 \<rparr>
      | firstApt # rest \<Rightarrow>
          let currentTime =
                (case truthyStartTime firstApt of
                   Some s \<Rightarrow> if isInflexible firstApt then timeToMinutes s else Some (9 * 60)
                 | None \<Rightarrow> Some (9 * 60));
              firstStop =
                \<lparr> appointment = firstApt,
                  order = 1,
                  arrivalTime = minutesToTime currentTime,
                  travelTimeFromPrevious = 0,
                  distanceFromPrevious = 0,
                  status = getArrivalStatus (minutesToTime currentTime)
                             (case truthyStartTime firstApt of Some s \<Rightarrow> s | None \<Rightarrow> ''09:00'')
                             GRACE_PERIOD_MINUTES,
                  minutesFromPreferred =
                    (case truthyStartTime firstApt of
                       Some s \<Rightarrow> jsAbs (jsSub (timeToMinutes (minutesToTime currentTime))
                                                (timeToMinutes s))
                     | None \<Rightarrow> Some 0) \<rparr>
          in routeLoop getDistanceMatrix firstApt rest 1 currentTime
               \<lparr> stops = [firstStop], totalDistance = 0, totalDriveTime = 0,
                 totalVisitTime = visitDurationMinutes firstApt \<rparr>)"

subsection \<open>One day and the whole route\<close>

record DayResult = RouteDetails +
  dayWarnings :: "string list"

definition longSegmentsWarning :: string where
  "longSegmentsWarning = ''Route has long distances between stops. Consider breaking into multiple days or combining nearby appointments.''"

definition optimizeDay :: "distanceMatrix \<Rightarrow> Appointment list \<Rightarrow> routeError + DayResult" where
  "optimizeDay getDistanceMatrix appts =
     (let inflexibleAppointments = sortWith compareStartTimes (filter isInflexible appts);
          flexibleAppointments = filter (\<lambda>apt. \<not> isInflexible apt) appts;
          orderedAppointments = fold (insertFlexibleAppointment getDistanceMatrix)
                                  flexibleAppointments inflexibleAppointments;
          finalOptimized = optimizeInflexiblePositions orderedAppointments inflexibleAppointments
      in case calculateRoute getDistanceMatrix finalOptimized of
           Inl e \<Rightarrow> Inl e
         | Inr result \<Rightarrow>
             let avgSegmentDistance =
                   totalDistance result / real_of_int (max (int (length (stops result)) - 1) 1)
             in Inr \<lparr> stops = stops result,
                      totalDistance = totalDistance result,
                      totalDriveTime = totalDriveTime result,
                      totalVisitTime = totalVisitTime result,
                      dayWarnings = (if avgSegmentDistance > 50000 then [longSegmentsWarning]
                                     else []) \<rparr>)"

record OptimizedRoute = RouteDetails +
  routeDate :: string
  success :: bool
  error :: "routeError option"
  warnings :: "string list option"

text \<open>The loop of \<open>optimizeRoute\<close> over the dates, adding up the days.\<close>

fun optimizeDays ::
  "distanceMatrix \<Rightarrow> Appointment list list \<Rightarrow> DayResult \<Rightarrow> routeError + DayResult" where
  "optimizeDays getDistanceMatrix [] acc = Inr acc"
| "optimizeDays getDistanceMatrix (dayAppointments # rest) acc =
     (case optimizeDay getDistanceMatrix dayAppointments of
        Inl e \<Rightarrow> Inl e
      | Inr dayResult \<Rightarrow>
          optimizeDays getDistanceMatrix rest
            \<lparr> stops = stops acc @ stops dayResult,
              totalDistance = totalDistance acc + totalDistance dayResult,
              totalDriveTime = totalDriveTime acc + totalDriveTime dayResult,
              totalVisitTime = totalVisitTime acc + totalVisitTime dayResult,
              dayWarnings = dayWarnings acc @ dayWarnings dayResult \<rparr>)"

definition failedRoute :: "string \<Rightarrow> routeError \<Rightarrow> OptimizedRoute" where
  "failedRoute d e =
     \<lparr> stops = [], totalDistance = 0, totalDriveTime = 0, totalVisitTime = 0,
       routeDate = d, success = False, error = Some e, warnings = None \<rparr>"

text \<open>
  \<open>optimizeRoute\<close>: every \<open>throw\<close> inside the \<open>try\<close> becomes the failed route
  of the \<open>catch\<close>.
\<close>

definition optimizeRoute :: "distanceMatrix \<Rightarrow> Appointment list \<Rightarrow> OptimizedRoute" where
  "optimizeRoute getDistanceMatrix geocodedAppointments =
     (case geocodedAppointments of
        [] \<Rightarrow> failedRoute [] NoAppointments
      | firstApt # _ \<Rightarrow>
          let (canOptimize, why) = canOptimizeRoute geocodedAppointments
          in if \<not> canOptimize then failedRoute (date firstApt) (CannotOptimize why)
             else
               (case optimizeDays getDistanceMatrix
                       (map snd (groupAppointmentsByDate geocodedAppointments))
                       \<lparr> stops = [], totalDistance = 0, totalDriveTime = 0,
                         totalVisitTime = 0, dayWarnings = [] \<rparr> of
                  Inl e \<Rightarrow> failedRoute (date firstApt) e
                | Inr summed \<Rightarrow>
                    \<lparr> stops = stops summed,
                      totalDistance = totalDistance summed,
                      totalDriveTime = totalDriveTime summed,
                      totalVisitTime = totalVisitTime summed,
                      routeDate = date firstApt,
                      success = True,
                      error = None,
                      warnings = (if length (dayWarnings summed) > 0
                                  then Some (dayWarnings summed) else None) \<rparr>))"

text \<open>
  \<open>validateRoute\<close> (validator.ts): the check of a finished route.  Nothing in
  the optimizer calls it.
\<close>

datatype routeViolation =
  MismatchedArrival nat jsnum string
| OutsideGracePeriod nat string string int

fun validateStops :: "int \<Rightarrow> VisitStop list \<Rightarrow> nat \<Rightarrow> jsnum \<Rightarrow> routeViolation list" where
  "validateStops gracePeriod [] i currentTime = []"
| "validateStops gracePeriod (stop # rest) i currentTime =
     (let apt = appointment stop;
          currentTime = (if i > 0 then jsAdd currentTime (Some (travelTimeFromPrevious stop))
                         else currentTime);
          actualArrivalMinutes = timeToMinutes (arrivalTime stop)
      in (if jsGt (jsAbs (jsSub currentTime actualArrivalMinutes)) (Some 1)
          then [MismatchedArrival (i + 1) currentTime (arrivalTime stop)] else [])
         @ (case truthyStartTime apt of
              Some s \<Rightarrow>
                if isInflexible apt \<and>
                   jsGt (jsAbs (jsSub (timeToMinutes (arrivalTime stop)) (timeToMinutes s)))
                        (Some gracePeriod)
                then [OutsideGracePeriod (i + 1) (arrivalTime stop) s gracePeriod] else []
            | None \<Rightarrow> [])
         @ validateStops gracePeriod rest (i + 1)
             (jsAdd currentTime (Some (visitDurationMinutes apt))))"

definition validateRoute :: "VisitStop list \<Rightarrow> int \<Rightarrow> routeViolation list" where
  "validateRoute routeStops gracePeriod =
     (case routeStops of
        [] \<Rightarrow> []
      | firstStop # _ \<Rightarrow>
          let dayStartMinutes =
                (case truthyStartTime (appointment firstStop) of
                   Some s \<Rightarrow> timeToMinutes s | None \<Rightarrow> Some (9 * 60))
          in validateStops gracePeriod routeStops 0 dayStartMinutes)"

section \<open>Sample routes\<close>

text \<open>A lookup that answers 5 km and 10 minutes for every pair of points.\<close>

definition constantLookup :: distanceMatrix where
  "constantLookup fromPoint toPoint = LookupResults [\<lparr> distance = 5000, duration = 10 \<rparr>]"

definition lateSample :: "Appointment list" where
  "lateSample =
     [sampleAppointment ''F'' 30 None flexible 1 1,
      sampleAppointment ''A'' 30 (Some ''09:00'') inflexible 2 2]"

text \<open>
  A lookup with a cheap direction: 1 km out of the point \<open>(2, 2)\<close>, 5 km out of
  any other point, 10 minutes either way.
\<close>

definition oneWayLookup :: distanceMatrix where
  "oneWayLookup fromPoint toPoint =
     (if fromPoint = (2, 2) then LookupResults [\<lparr> distance = 1000, duration = 10 \<rparr>]
      else LookupResults [\<lparr> distance = 5000, duration = 10 \<rparr>])"

section \<open>Properties of a timed route\<close>

text \<open>
  The stop \<open>s2\<close> is reached no earlier than the arrival at \<open>s1\<close> plus the visit
  duration of \<open>s1\<close>, both arrival times read back with \<open>timeToMinutes\<close>.
\<close>

definition arrivesAfter :: "VisitStop \<Rightarrow> VisitStop \<Rightarrow> bool" where
  "arrivesAfter s1 s2 =
     (case (timeToMinutes (arrivalTime s1), timeToMinutes (arrivalTime s2)) of
        (Some t, Some u) \<Rightarrow> t + visitDurationMinutes (appointment s1) \<le> u
      | _ \<Rightarrow> False)"

text \<open>Every start time that is present reads as a time of day from midnight on.\<close>

definition startTimesParse :: "Appointment list \<Rightarrow> bool" where
  "startTimesParse appts =
     list_all (\<lambda>a. case truthyStartTime a of
                      None \<Rightarrow> True
                    | Some s \<Rightarrow> (case timeToMinutes s of None \<Rightarrow> False | Some t \<Rightarrow> 0 \<le> t))
              appts"


text \<open>No visit duration is negative.\<close>

definition durationsNonNegative :: "Appointment list \<Rightarrow> bool" where
  "durationsNonNegative appts = list_all (\<lambda>a. 0 \<le> visitDurationMinutes a) appts"

text \<open>The lookup never answers a negative travel time.\<close>

definition travelTimesNonNegative :: "distanceMatrix \<Rightarrow> bool" where
  "travelTimesNonNegative getDistanceMatrix =
     (\<forall>p q r rs. getDistanceMatrix p q = LookupResults (r # rs) \<longrightarrow> 0 \<le> duration r)"

text \<open>The lookup never throws.\<close>

definition neverThrows :: "distanceMatrix \<Rightarrow> bool" where
  "neverThrows getDistanceMatrix = (\<forall>p q. getDistanceMatrix p q \<noteq> LookupThrows)"

section \<open>Properties\<close>

subsection \<open>Printing and reading minute counts\<close>

lemma digitVal_nth: "k < 10 \<Longrightarrow> digitVal (''0123456789'' ! k) = Some k"
proof -
  assume "k < 10"
  then have "k = 0 \<or> k = 1 \<or> k = 2 \<or> k = 3 \<or> k = 4 \<or> k = 5 \<or> k = 6 \<or> k = 7 \<or> k = 8 \<or> k = 9"
    by arith
  then show ?thesis
    by (elim disjE) (simp_all add: digitVal_def)
qed

lemma digitVal_digitChar: "digitVal (digitChar d) = Some (d mod 10)"
  by (simp add: digitChar_def digitVal_nth)

lemma parseDigits_snoc:
  "parseDigits acc (xs @ [c]) =
     (case parseDigits acc xs of None \<Rightarrow> None
      | Some a \<Rightarrow> (case digitVal c of None \<Rightarrow> None | Some d \<Rightarrow> Some (10 * a + d)))"
  by (induction xs arbitrary: acc) (auto split: option.splits)

lemma parseDigits_natToString: "parseDigits 0 (natToString n) = Some n"
proof (induction n rule: natToString.induct)
  case (1 n)
  show ?case
  proof (cases "n < 10")
    case True
    then show ?thesis
      by (subst natToString.simps) (simp add: digitVal_digitChar)
  next
    case False
    with 1 have "parseDigits 0 (natToString (n div 10)) = Some (n div 10)" by simp
    with False show ?thesis
      by (subst natToString.simps) (simp add: parseDigits_snoc digitVal_digitChar)
  qed
qed

lemma digitChar_cases:
  "digitChar d \<in> set ''0123456789''"
  unfolding digitChar_def by (rule nth_mem) simp

lemma natToString_set: "set (natToString n) \<subseteq> set ''0123456789''"
proof (induction n rule: natToString.induct)
  case (1 n)
  show ?case
  proof (cases "n < 10")
    case True
    then show ?thesis using digitChar_cases [of n]
      by (subst natToString.simps) simp
  next
    case False
    with 1 have "set (natToString (n div 10)) \<subseteq> set ''0123456789''" by simp
    with False show ?thesis using digitChar_cases [of "n mod 10"]
      by (subst natToString.simps) simp
  qed
qed

lemma natToString_nonempty: "natToString n \<noteq> []"
  by (subst natToString.simps) simp

lemma parseDigits_zeros: "parseDigits 0 (replicate k CHR ''0'' @ s) = parseDigits 0 s"
  by (induction k) (simp_all add: digitVal_def)

lemma Number_digits:
  assumes "s \<noteq> []" and "set s \<subseteq> set ''0123456789''"
  shows "Number s = map_option int (parseDigits 0 s)"
proof -
  from assms obtain c cs where s: "s = c # cs" by (cases s) auto
  with assms(2) have "c \<noteq> CHR ''-''" "c \<noteq> CHR ''+''" by auto
  with s show ?thesis by (simp add: Number_def)
qed

lemma Number_padStart2_intToString: "Number (padStart2 (intToString i)) = Some i"
proof (cases "i < 0")
  case True
  have "length (natToString (nat (- i))) \<ge> 1"
    using natToString_nonempty [of "nat (- i)"] by (cases "natToString (nat (- i))") auto
  then have "padStart2 (intToString i) = CHR ''-'' # natToString (nat (- i))"
    using True by (simp add: padStart2_def intToString_def)
  then show ?thesis using True
    by (simp add: Number_def natToString_nonempty parseDigits_natToString)
next
  case False
  let ?s = "natToString (nat i)"
  have set: "set (replicate (2 - length ?s) CHR ''0'' @ ?s) \<subseteq> set ''0123456789''"
    using natToString_set [of "nat i"] by (auto simp: set_replicate_conv_if)
  have "Number (padStart2 (intToString i)) = map_option int (parseDigits 0 (replicate (2 - length ?s) CHR ''0'' @ ?s))"
    using False set natToString_nonempty [of "nat i"]
    by (simp add: padStart2_def intToString_def Number_digits)
  also have "\<dots> = Some i"
    using False by (simp add: parseDigits_zeros parseDigits_natToString)
  finally show ?thesis .
qed

lemma splitColon_no_colon: "CHR '':'' \<notin> set s \<Longrightarrow> splitColon s = [s]"
  by (induction s) auto

lemma splitColon_append:
  "CHR '':'' \<notin> set a \<Longrightarrow> splitColon (a @ CHR '':'' # b) = a # splitColon b"
  by (induction a) auto

lemma padStart2_intToString_no_colon: "CHR '':'' \<notin> set (padStart2 (intToString i))"
  using natToString_set [of "nat i"] natToString_set [of "nat (- i)"]
  by (auto simp: padStart2_def intToString_def set_replicate_conv_if)

lemma timeToMinutes_minutesToTime:
  "timeToMinutes (minutesToTime (Some m)) = Some (m div 60 * 60 + jsRem m 60)"
  by (simp add: timeToMinutes_def minutesToTime_def splitColon_append splitColon_no_colon
      padStart2_intToString_no_colon Number_padStart2_intToString jsAdd_def)

lemma timeToMinutes_minutesToTime_nonneg:
  "0 \<le> m \<Longrightarrow> timeToMinutes (minutesToTime (Some m)) = Some m"
  by (simp add: timeToMinutes_minutesToTime jsRem_def sgn_if)

lemma timeToMinutes_NaN: "timeToMinutes (minutesToTime None) = None"
  by (simp add: timeToMinutes_def minutesToTime_def Number_def digitVal_def jsAdd_def)



subsection \<open>Conflict detection\<close>

lemma detectConflict_no_start:
  "truthyStartTime a = None \<or> truthyStartTime b = None \<Longrightarrow> detectConflict a b = None"
  by (auto simp: detectConflict_def split: option.splits)

lemma detectConflict_times:
  assumes "truthyStartTime a = Some s1" and "truthyStartTime b = Some s2"
    and "timeToMinutes s1 = Some t1" and "timeToMinutes s2 = Some t2"
  shows "detectConflict a b = None \<longleftrightarrow>
           (if t1 < t2 then visitDurationMinutes a \<le> t2 - t1
            else visitDurationMinutes b \<le> t1 - t2)"
  using assms by (simp add: detectConflict_def jsLt_def jsSub_def Let_def)


lemma timeToMinutes_0900: "timeToMinutes ''09:00'' = Some 540"
  by (simp add: timeToMinutes_def Number_def digitVal_def jsAdd_def)

lemma timeToMinutes_0920: "timeToMinutes ''09:20'' = Some 560"
  by (simp add: timeToMinutes_def Number_def digitVal_def jsAdd_def)

text \<open>
  Claim C2.  \<open>detectConflict\<close> reports no conflict when either appointment has no
  start time.  When both start times are times \<open>t1\<close> and \<open>t2\<close>, it reports no
  conflict exactly when the gap between the two starts is at least the visit
  duration of the earlier appointment.  On equal start times the code takes its
  second argument as the earlier one; with positive durations a pair that
  starts at the same minute is a conflict whichever of the two is read as the
  earlier.
\<close>

theorem detectConflict_gap_rule:
  "(truthyStartTime a = None \<or> truthyStartTime b = None \<longrightarrow> detectConflict a b = None) \<and>
   (\<forall>s1 s2 t1 t2.
      truthyStartTime a = Some s1 \<and> truthyStartTime b = Some s2 \<and>
      timeToMinutes s1 = Some t1 \<and> timeToMinutes s2 = Some t2 \<longrightarrow>
        (detectConflict a b = None \<longleftrightarrow>
           (if t1 < t2 then visitDurationMinutes a \<le> t2 - t1
            else visitDurationMinutes b \<le> t1 - t2)) \<and>
        (t1 = t2 \<and> 0 < visitDurationMinutes a \<and> 0 < visitDurationMinutes b \<longrightarrow>
           detectConflict a b \<noteq> None))"
proof (intro conjI allI impI)
  assume "truthyStartTime a = None \<or> truthyStartTime b = None"
  then show "detectConflict a b = None" by (rule detectConflict_no_start)
next
  fix s1 s2 t1 t2
  assume h: "truthyStartTime a = Some s1 \<and> truthyStartTime b = Some s2 \<and>
      timeToMinutes s1 = Some t1 \<and> timeToMinutes s2 = Some t2"
  then show iff: "detectConflict a b = None \<longleftrightarrow>
           (if t1 < t2 then visitDurationMinutes a \<le> t2 - t1
            else visitDurationMinutes b \<le> t1 - t2)"
    using detectConflict_times [of a s1 b s2 t1 t2] by blast
  assume "t1 = t2 \<and> 0 < visitDurationMinutes a \<and> 0 < visitDurationMinutes b"
  with iff show "detectConflict a b \<noteq> None" by simp
qed

theorem detectConflict_gap_rule_witness:
  "truthyStartTime (sampleAppointment ''A'' 30 (Some ''09:00'') inflexible 0 0) = Some ''09:00'' \<and>
   truthyStartTime (sampleAppointment ''B'' 45 (Some ''09:20'') inflexible 0 0) = Some ''09:20'' \<and>
   timeToMinutes ''09:00'' = Some 540 \<and> timeToMinutes ''09:20'' = Some 560 \<and>
   detectConflict (sampleAppointment ''A'' 30 (Some ''09:00'') inflexible 0 0)
                  (sampleAppointment ''B'' 45 (Some ''09:20'') inflexible 0 0) \<noteq> None \<and>
   detectConflict (sampleAppointment ''A'' 30 None flexible 0 0)
                  (sampleAppointment ''B'' 45 (Some ''09:20'') inflexible 0 0) = None"
proof -
  let ?a = "sampleAppointment ''A'' 30 (Some ''09:00'') inflexible 0 0"
  let ?b = "sampleAppointment ''B'' 45 (Some ''09:20'') inflexible 0 0"
  let ?f = "sampleAppointment ''A'' 30 None flexible 0 0"
  have h: "truthyStartTime ?a = Some ''09:00'' \<and> truthyStartTime ?b = Some ''09:20'' \<and>
           timeToMinutes ''09:00'' = Some 540 \<and> timeToMinutes ''09:20'' = Some 560"
    by (simp add: truthyStartTime_def sampleAppointment_def timeToMinutes_0900 timeToMinutes_0920)
  have n: "truthyStartTime ?f = None \<or> truthyStartTime ?b = None"
    by (simp add: truthyStartTime_def sampleAppointment_def)
  from detectConflict_gap_rule [of ?a ?b] h
  have "detectConflict ?a ?b = None \<longleftrightarrow>
          (if (540::int) < 560 then visitDurationMinutes ?a \<le> 560 - 540
           else visitDurationMinutes ?b \<le> 540 - 560)"
    by blast
  then have c: "detectConflict ?a ?b \<noteq> None" by (simp add: sampleAppointment_def)
  from detectConflict_gap_rule [of ?f ?b] n have "detectConflict ?f ?b = None" by blast
  with h c show ?thesis by blast
qed


subsection \<open>Smart buffer\<close>



lemma haversine_quarter:
  assumes "sin (degreesToRadians (lat2 - lat1) / 2) * sin (degreesToRadians (lat2 - lat1) / 2) +
           cos (degreesToRadians lat1) * cos (degreesToRadians lat2) *
           sin (degreesToRadians (lng2 - lng1) / 2) * sin (degreesToRadians (lng2 - lng1) / 2) = 1/4"
  shows "haversineDistance lat1 lng1 lat2 lng2 = 6371 * pi / 3"
proof -
  have t: "arctan (1 / sqrt 3) = pi / 6"
    by (rule arctan_unique) (simp_all add: tan_30)
  have s: "sqrt (1/4) = (1/2::real)" by (simp add: real_sqrt_divide)
  have s3: "sqrt (1 - 1/4) = sqrt 3 / (2::real)" by (simp add: real_sqrt_divide)
  have "haversineDistance lat1 lng1 lat2 lng2 = 6371 * (2 * atan2 (sqrt (1/4)) (sqrt (1 - 1/4)))"
    unfolding haversineDistance_def Let_def assms ..
  also have "\<dots> = 6371 * pi / 3"
    unfolding s s3 by (simp add: atan2_def t)
  finally show ?thesis .
qed

lemma quarter_turn_at_45:
  "cos (pi / 4) * cos (pi / 4) * sin (pi / 4) * sin (pi / 4) = (1/4::real)"
proof -
  have sc: "sin (pi / 4) * sin (pi / 4) = (1/2::real)" "cos (pi / 4) * cos (pi / 4) = (1/2::real)"
    by (simp_all add: sin_45 cos_45)
  have "cos (pi/4) * cos (pi/4) * sin (pi/4) * sin (pi/4)
        = (cos (pi/4) * cos (pi/4)) * (sin (pi/4) * sin (pi/4 :: real))"
    by (simp only: mult.assoc)
  also have "\<dots> = 1/4" by (simp add: sc)
  finally show ?thesis .
qed

lemma haversineDistance_45_0_45_90: "haversineDistance 45 0 45 90 = 6371 * pi / 3"
  by (rule haversine_quarter) (use quarter_turn_at_45 in \<open>simp add: degreesToRadians_def\<close>)


lemma sixth_of_circumference: "(50::real) < 6371 * pi / 3"
proof -
  have "(50::real) < 6371 * 2 / 3" by simp
  also have "\<dots> \<le> 6371 * pi / 3" using pi_ge_two by simp
  finally show ?thesis .
qed

text \<open>
  A coordinate that is 0 is falsy: the pair 45N 0E, 45N 90E is a sixth of the
  globe apart and gets no surcharge, the buffer stays at the base 45 minutes.
\<close>

lemma smartBuffer_zero_coordinate:
  "haversineDistance 45 0 45 90 > 10 \<and>
   \<not> coordinatesKnown (sampleAppointment ''A'' 30 (Some ''09:00'') inflexible 45 0)
         (sampleAppointment ''B'' 30 (Some ''11:00'') inflexible 45 90) \<and>
   calculateSmartBuffer (sampleAppointment ''A'' 30 (Some ''09:00'') inflexible 45 0)
       (sampleAppointment ''B'' 30 (Some ''11:00'') inflexible 45 90) DEFAULT_BUFFER_CONFIG = 45"
proof -
  have "haversineDistance 45 0 45 90 > 10"
    using sixth_of_circumference by (simp add: haversineDistance_45_0_45_90)
  then show ?thesis
    by (simp add: calculateSmartBuffer_def bufferAfterDistance_def bufferAfterDuration_def
        bufferAfterFlexibility_def sampleAppointment_def DEFAULT_BUFFER_CONFIG_def isInflexible_def
        coordinatesKnown_def)
qed



subsection \<open>Permutations and reorderings\<close>

lemma length_remove_nth:
  "i < length arr \<Longrightarrow> length (take i arr @ drop (Suc i) arr) = length arr - 1"
  by simp

lemma length_concat_const:
  assumes "\<And>x. x \<in> set xs \<Longrightarrow> length (f x) = c"
  shows "length (concat (map f xs)) = length xs * c"
  using assms by (induction xs) simp_all

lemma length_permute: "length (permute arr) = fact (length arr)"
proof (induction "length arr" arbitrary: arr rule: less_induct)
  case less
  show ?case
  proof (cases "length arr \<le> 1")
    case True
    then have "length arr = 0 \<or> length arr = 1" by arith
    then show ?thesis by (subst permute.simps) auto
  next
    case False
    then obtain n where n: "length arr = Suc n" by (cases "length arr") auto
    have each: "length (map (\<lambda>perm. arr ! i # perm) (permute (take i arr @ drop (Suc i) arr))) = fact n"
      if "i \<in> set [0..<length arr]" for i
    proof -
      from that have i: "i < length arr" by simp
      then have eq: "length (take i arr @ drop (Suc i) arr) = n" using n by simp
      then have "length (take i arr @ drop (Suc i) arr) < length arr" using n by simp
      then have "length (permute (take i arr @ drop (Suc i) arr)) =
                 fact (length (take i arr @ drop (Suc i) arr))"
        by (rule less.hyps)
      then show ?thesis by (simp only: length_map eq)
    qed
    have "length (permute arr) =
          length (concat (map (\<lambda>i. map (\<lambda>perm. arr ! i # perm)
                    (permute (take i arr @ drop (Suc i) arr))) [0..<length arr]))"
      using False by (subst permute.simps) simp
    also have "\<dots> = length [0..<length arr] * fact n"
      by (rule length_concat_const) (rule each)
    also have "\<dots> = fact (length arr)" using n by simp
    finally show ?thesis .
  qed
qed

lemma mset_permute: "perm \<in> set (permute arr) \<Longrightarrow> mset perm = mset arr"
proof (induction "length arr" arbitrary: arr perm rule: less_induct)
  case less
  show ?case
  proof (cases "length arr \<le> 1")
    case True
    with less.prems show ?thesis by (subst (asm) permute.simps) simp
  next
    case False
    with less.prems obtain i p where i: "i < length arr"
      and p: "p \<in> set (permute (take i arr @ drop (Suc i) arr))"
      and perm: "perm = arr ! i # p"
      by (subst (asm) permute.simps) auto
    from i have "length (take i arr @ drop (Suc i) arr) < length arr" by simp
    then have "mset p = mset (take i arr @ drop (Suc i) arr)"
      using less.hyps p by blast
    then have "mset perm = mset (take i arr @ arr ! i # drop (Suc i) arr)"
      by (simp add: perm)
    also have "take i arr @ arr ! i # drop (Suc i) arr = arr"
      using i by (simp add: id_take_nth_drop [symmetric])
    finally show ?thesis .
  qed
qed

lemma interleave_length: "length (interleave origs fp k) = length origs"
  by (induction origs arbitrary: k) simp_all

lemma interleave_inflexible:
  "i < length origs \<Longrightarrow> isInflexible (origs ! i) \<Longrightarrow> interleave origs fp k ! i = Some (origs ! i)"
proof (induction origs arbitrary: k i)
  case Nil
  then show ?case by simp
next
  case (Cons o1 origs)
  then show ?case by (cases i) auto
qed

lemma interleave_mset:
  "k + length (filter (\<lambda>apt. \<not> isInflexible apt) origs) \<le> length fp \<Longrightarrow>
   mset (interleave origs fp k) =
     image_mset Some (mset (filter isInflexible origs) +
       mset (take (length (filter (\<lambda>apt. \<not> isInflexible apt) origs)) (drop k fp)))"
proof (induction origs arbitrary: k)
  case Nil
  then show ?case by simp
next
  case (Cons o1 origs)
  show ?case
  proof (cases "isInflexible o1")
    case True
    with Cons show ?thesis by simp
  next
    case False
    let ?n = "length (filter (\<lambda>apt. \<not> isInflexible apt) origs)"
    from False Cons.prems have k: "k < length fp" and le: "Suc k + ?n \<le> length fp" by simp_all
    from k have d: "drop k fp = fp ! k # drop (Suc k) fp" by (simp add: Cons_nth_drop_Suc)
    from Cons.IH [OF le] False k show ?thesis
      by (simp add: arrayAt_def d)
  qed
qed

lemma generateReorderings_trivial:
  "filter isInflexible appts = [] \<or> filter (\<lambda>apt. \<not> isInflexible apt) appts = [] \<Longrightarrow>
   generateReorderings appts = [map Some appts]"
  by (auto simp: generateReorderings_def)

lemma generateReorderings_member:
  assumes "r \<in> set (generateReorderings appts)"
  shows "length r = length appts \<and> mset r = image_mset Some (mset appts) \<and>
         (\<forall>i < length appts. isInflexible (appts ! i) \<longrightarrow> r ! i = Some (appts ! i))"
proof (cases "filter isInflexible appts = [] \<or> filter (\<lambda>apt. \<not> isInflexible apt) appts = []")
  case True
  with assms show ?thesis by (simp add: generateReorderings_trivial)
next
  case False
  let ?flex = "filter (\<lambda>apt. \<not> isInflexible apt) appts"
  from False assms obtain fp where fp: "fp \<in> set (permute ?flex)" and r: "r = interleave appts fp 0"
    by (auto simp: generateReorderings_def)
  from fp have m: "mset fp = mset ?flex" by (rule mset_permute)
  then have len: "length fp = length ?flex" by (rule mset_eq_length)
  have "mset r = image_mset Some (mset (filter isInflexible appts) + mset (take (length ?flex) (drop 0 fp)))"
    unfolding r by (rule interleave_mset) (simp add: len)
  also have "\<dots> = image_mset Some (mset (filter isInflexible appts) + mset ?flex)"
    using len m by simp
  also have "\<dots> = image_mset Some (mset appts)"
    by simp
  finally have "mset r = image_mset Some (mset appts)" .
  then show ?thesis by (simp add: r interleave_length interleave_inflexible)
qed

lemma generateReorderings_defined:
  "r \<in> set (generateReorderings appts) \<Longrightarrow> None \<notin> set r"
proof
  assume "r \<in> set (generateReorderings appts)" and "None \<in> set r"
  then have "None \<in># image_mset Some (mset appts)"
    using generateReorderings_member [of r appts] by (metis set_mset_mset)
  then show False by auto
qed

lemma generateReorderings_count:
  assumes "filter isInflexible appts \<noteq> []" and "filter (\<lambda>apt. \<not> isInflexible apt) appts \<noteq> []"
  shows "length (generateReorderings appts) = fact (length (filter (\<lambda>apt. \<not> isInflexible apt) appts))"
  using assms by (simp add: generateReorderings_def length_permute)


text \<open>
  Claim C6.  With at least one inflexible and at least one flexible appointment,
  \<open>generateReorderings\<close> returns \<open>k!\<close> orderings, \<open>k\<close> the number of flexible
  appointments; every ordering has the length of the input, holds the input's
  appointments (no \<open>undefined\<close> entry) and has each inflexible appointment at
  its original index.  With no inflexible or no flexible appointment it returns
  the original list alone.
\<close>

theorem generateReorderings_orderings:
  "(filter isInflexible appts \<noteq> [] \<and> filter (\<lambda>apt. \<not> isInflexible apt) appts \<noteq> [] \<longrightarrow>
      length (generateReorderings appts) =
        fact (length (filter (\<lambda>apt. \<not> isInflexible apt) appts)) \<and>
      (\<forall>r \<in> set (generateReorderings appts).
         length r = length appts \<and> None \<notin> set r \<and>
         mset r = image_mset Some (mset appts) \<and>
         (\<forall>i < length appts. isInflexible (appts ! i) \<longrightarrow> r ! i = Some (appts ! i)))) \<and>
   (filter isInflexible appts = [] \<or> filter (\<lambda>apt. \<not> isInflexible apt) appts = [] \<longrightarrow>
      generateReorderings appts = [map Some appts])"
  using generateReorderings_count [of appts] generateReorderings_member [of _ appts]
    generateReorderings_defined [of _ appts] generateReorderings_trivial [of appts]
  by blast


theorem generateReorderings_orderings_witness:
  "filter isInflexible reorderSample \<noteq> [] \<and>
   filter (\<lambda>apt. \<not> isInflexible apt) reorderSample \<noteq> [] \<and>
   length (generateReorderings reorderSample) = 2 \<and>
   [Some (sampleAppointment ''F2'' 30 None flexible 1 1),
    Some (sampleAppointment ''A'' 30 (Some ''09:00'') inflexible 1 1),
    Some (sampleAppointment ''F1'' 30 None flexible 1 1)] \<in> set (generateReorderings reorderSample) \<and>
   (1::nat) < length reorderSample \<and> isInflexible (reorderSample ! 1) \<and>
   filter isInflexible [sampleAppointment ''F1'' 30 None flexible 1 1] = [] \<and>
   generateReorderings [sampleAppointment ''F1'' 30 None flexible 1 1] =
     [[Some (sampleAppointment ''F1'' 30 None flexible 1 1)]]"
proof -
  have h: "filter isInflexible reorderSample \<noteq> [] \<and>
           filter (\<lambda>apt. \<not> isInflexible apt) reorderSample \<noteq> []"
    by (simp add: reorderSample_def sampleAppointment_def isInflexible_def)
  have k: "length (filter (\<lambda>apt. \<not> isInflexible apt) reorderSample) = 2"
    by (simp add: reorderSample_def sampleAppointment_def isInflexible_def)
  have mem: "[Some (sampleAppointment ''F2'' 30 None flexible 1 1),
    Some (sampleAppointment ''A'' 30 (Some ''09:00'') inflexible 1 1),
    Some (sampleAppointment ''F1'' 30 None flexible 1 1)] \<in> set (generateReorderings reorderSample)"
    by code_simp
  have i: "(1::nat) < length reorderSample \<and> isInflexible (reorderSample ! 1)"
    by (simp add: reorderSample_def sampleAppointment_def isInflexible_def)
  have t: "filter isInflexible [sampleAppointment ''F1'' 30 None flexible 1 1] = []"
    by (simp add: sampleAppointment_def isInflexible_def)
  from generateReorderings_orderings [of reorderSample] h k
  have "length (generateReorderings reorderSample) = 2"
    by (simp add: fact_numeral)
  moreover from generateReorderings_orderings [of "[sampleAppointment ''F1'' 30 None flexible 1 1]"] t
  have "generateReorderings [sampleAppointment ''F1'' 30 None flexible 1 1] =
     [[Some (sampleAppointment ''F1'' 30 None flexible 1 1)]]"
    by simp
  ultimately show ?thesis using h mem i t by blast
qed

subsection \<open>Impact score\<close>






subsection \<open>Reordering simulator\<close>

lemma those_defined: "None \<notin> set r \<Longrightarrow> those r = Some (map the r)"
proof (induction r)
  case Nil
  then show ?case by simp
next
  case (Cons a r)
  then obtain y where "a = Some y" by (cases a) auto
  with Cons show ?case by simp
qed

lemma zeroGaps_create: "zeroGaps (createReorderingSolution r d c n f)"
  by (simp add: zeroGaps_def createReorderingSolution_def)

lemma feasibility_create:
  "feasibility (createReorderingSolution r d c n f) = (if f then feasible else infeasible)"
  by (simp add: createReorderingSolution_def)

lemma testReorderings_inv:
  assumes "reorderInv cap st" and "\<forall>r \<in> set rs. None \<notin> set r"
  shows "\<exists>st'. testReorderings cap day rs st = Inr st' \<and> reorderInv cap st'"
  using assms
proof (induction rs arbitrary: st)
  case Nil
  then show ?case by simp
next
  case (Cons r rs)
  show ?case
  proof (cases "scenariosTested st < cap")
    case False
    with Cons.prems show ?thesis by simp
  next
    case True
    from Cons.prems have r: "those r = Some (map the r)" by (simp add: those_defined)
    let ?re = "map the r"
    let ?feas = "length (findAllConflicts ?re) = 0"
    let ?sol = "createReorderingSolution ?re day (findAllConflicts ?re) (scenariosTested st + 1) ?feas"
    let ?st = "\<lparr> solutions = solutions st @ [?sol], scenariosTested = scenariosTested st + 1,
                 feasibleCount = (if ?feas then feasibleCount st + 1 else feasibleCount st) \<rparr>"
    have "reorderInv cap ?st"
      using Cons.prems(1) True
      by (auto simp: reorderInv_def zeroGaps_create feasibility_create)
    moreover have "\<forall>r \<in> set rs. None \<notin> set r" using Cons.prems by simp
    ultimately obtain st' where "testReorderings cap day rs ?st = Inr st'" "reorderInv cap st'"
      using Cons.IH by blast
    then show ?thesis using True r by (simp add: Let_def)
  qed
qed


lemma simulateDay_inv:
  assumes "reorderInv cap st"
  shows "\<exists>st'. simulateDay cap day st = Inr st' \<and> reorderInv cap st'"
proof -
  have "\<forall>r \<in> set (generateReorderings day). None \<notin> set r"
    using generateReorderings_defined by blast
  with assms testReorderings_inv show ?thesis
    by (auto simp: simulateDay_def Let_def)
qed

lemma simulateDays_inv:
  assumes "reorderInv cap st"
  shows "\<exists>st'. simulateDays cap days st = Inr st' \<and> reorderInv cap st'"
  using assms
proof (induction days arbitrary: st)
  case Nil
  then show ?case by simp
next
  case (Cons p days)
  obtain d day where p: "p = (d, day)" by (cases p)
  from simulateDay_inv [OF Cons.prems] obtain st1
    where s1: "simulateDay cap day st = Inr st1" and i1: "reorderInv cap st1" by blast
  from Cons.IH [OF i1] s1 p show ?case by simp
qed

lemma reorderingScenarios_inv:
  "\<exists>st. reorderingScenarios appts cap = Inr st \<and> reorderInv cap st"
  unfolding reorderingScenarios_def
  by (rule simulateDays_inv) (simp add: reorderInv_def)

lemma those_statistics:
  assumes "\<forall>s \<in> set sols. zeroGaps s"
  shows "\<exists>stats. those (map statistics sols) = Some stats \<and>
           (\<forall>x \<in> set stats. bestScenarioGapMinutes x = 0 \<and> worstScenarioGapMinutes x = 0 \<and>
              averageGapMinutes x = 0)"
  using assms
proof (induction sols)
  case Nil
  then show ?case by simp
next
  case (Cons s sols)
  then obtain x where "statistics s = Some x" "bestScenarioGapMinutes x = 0"
    "worstScenarioGapMinutes x = 0" "averageGapMinutes x = 0"
    by (auto simp: zeroGaps_def)
  moreover from Cons obtain stats where "those (map statistics sols) = Some stats"
    "\<forall>x \<in> set stats. bestScenarioGapMinutes x = 0 \<and> worstScenarioGapMinutes x = 0 \<and>
              averageGapMinutes x = 0" by auto
  ultimately show ?case by simp
qed

lemma filter_zero_gaps:
  "\<forall>x \<in> set stats. f x = (0::real) \<Longrightarrow> filter (\<lambda>g. g > 0) (map f stats) = []"
  by (induction stats) simp_all

lemma finalStats_inv:
  assumes "reorderInv cap st"
  shows "finalStats st =
           Inr \<lparr> totalScenariosTested = scenariosTested st,
                 feasibleScenarios = feasibleCount st,
                 bestScenarioGapMinutes = 0, worstScenarioGapMinutes = 0,
                 averageGapMinutes = 0,
                 reorderingsTested = scenariosTested st, buffersTested = 0 \<rparr>"
proof -
  from assms have "\<forall>s \<in> set (solutions st). zeroGaps s" by (simp add: reorderInv_def)
  from those_statistics [OF this] obtain stats
    where t: "those (map statistics (solutions st)) = Some stats"
      and z: "\<forall>x \<in> set stats. bestScenarioGapMinutes x = 0 \<and> worstScenarioGapMinutes x = 0 \<and>
              averageGapMinutes x = 0" by blast
  from z have "filter (\<lambda>g. g > 0) (map bestScenarioGapMinutes stats) = []"
    "filter (\<lambda>g. g > 0) (map worstScenarioGapMinutes stats) = []"
    "filter (\<lambda>g. g > 0) (map averageGapMinutes stats) = []"
    by (simp_all add: filter_zero_gaps)
  with t show ?thesis
    by (simp add: finalStats_def calculateBestGap_def calculateWorstGap_def calculateAverageGap_def)
qed

lemma length_filter_sort_key: "length (filter P (sort_key f xs)) = length (filter P xs)"
proof -
  have "mset (filter P (sort_key f xs)) = mset (filter P xs)" by simp
  then show ?thesis by (rule mset_eq_length)
qed

text \<open>
  Claim C8.  \<open>simulateReordering\<close> returns (it never throws), with at most
  \<open>maxReorderingScenarios\<close> solutions over all dates, one per tested scenario.
  Every returned solution carries the success rate
  \<open>feasibleScenarios / scenariosTested\<close> of the final counters, where
  \<open>feasibleScenarios\<close> is the number of returned solutions that are feasible, and
  the same statistics record, the one \<open>finalStats\<close> computes from the final state.
\<close>

theorem simulateReordering_cap_and_stats:
  "\<exists>st stats sols.
     reorderingScenarios appts cap = Inr st \<and> finalStats st = Inr stats \<and>
     simulateReordering appts cap cfg = Inr sols \<and>
     length sols \<le> cap \<and>
     length sols = scenariosTested st \<and>
     length (filter (\<lambda>s. feasibility s = feasible) sols) = feasibleCount st \<and>
     (\<forall>s \<in> set sols.
        successRate s = real (feasibleCount st) / real (scenariosTested st) \<and>
        statistics s = Some stats)"
proof -
  obtain st where run: "reorderingScenarios appts cap = Inr st" and inv: "reorderInv cap st"
    using reorderingScenarios_inv by blast
  let ?stats = "\<lparr> totalScenariosTested = scenariosTested st,
                 feasibleScenarios = feasibleCount st,
                 bestScenarioGapMinutes = 0, worstScenarioGapMinutes = 0,
                 averageGapMinutes = 0,
                 reorderingsTested = scenariosTested st, buffersTested = 0 \<rparr>"
  let ?rate = "if scenariosTested st > 0
               then real (feasibleCount st) / real (scenariosTested st) else 0"
  let ?updated = "map (\<lambda>solution. solution\<lparr> successRate := ?rate, statistics := Some ?stats \<rparr>)
                    (solutions st)"
  let ?sols = "sort_key (\<lambda>solution. calculateImpactScore solution DEFAULT_BUFFER_CONFIG) ?updated"
  have fs: "finalStats st = Inr ?stats" using inv by (rule finalStats_inv)
  have res: "simulateReordering appts cap cfg = Inr ?sols"
    by (simp add: simulateReordering_def run fs)
  have len: "length ?sols = scenariosTested st" using inv by (simp add: reorderInv_def)
  have cap: "length ?sols \<le> cap" using inv by (simp add: reorderInv_def)
  have "filter (\<lambda>s. feasibility s = feasible) ?updated
          = map (\<lambda>solution. solution\<lparr> successRate := ?rate, statistics := Some ?stats \<rparr>)
              (filter (\<lambda>s. feasibility s = feasible) (solutions st))"
    by (simp add: filter_map comp_def)
  then have feas: "length (filter (\<lambda>s. feasibility s = feasible) ?sols) = feasibleCount st"
    using inv by (simp add: length_filter_sort_key reorderInv_def)
  have each: "successRate s = real (feasibleCount st) / real (scenariosTested st) \<and>
              statistics s = Some ?stats" if "s \<in> set ?sols" for s
  proof -
    from that have mem: "s \<in> set ?updated" by simp
    then have "length (solutions st) > 0" by auto
    moreover have "length (solutions st) = scenariosTested st"
      using inv by (simp add: reorderInv_def)
    ultimately have "scenariosTested st > 0" by simp
    with mem show ?thesis by auto
  qed
  from run fs res cap len feas each show ?thesis by blast
qed

theorem simulateReordering_cap_and_stats_witness:
  "\<exists>sols. simulateReordering reorderSample 1 DEFAULT_BUFFER_CONFIG = Inr sols \<and>
      length sols \<le> 1 \<and> sols \<noteq> [] \<and>
      (\<forall>s \<in> set sols. successRate s = 1 \<and>
         statistics s = Some \<lparr> totalScenariosTested = 1, feasibleScenarios = 1,
           bestScenarioGapMinutes = 0, worstScenarioGapMinutes = 0, averageGapMinutes = 0,
           reorderingsTested = 1, buffersTested = 0 \<rparr>)"
proof -
  let ?s = "\<lparr>changes = [], successRate = 1, impactScore = 0, feasibility = feasible,
     reasoning = [''Successfully reordered 3 appointments with no conflicts''],
     statistics = Some \<lparr>totalScenariosTested = 1, feasibleScenarios = 1,
        bestScenarioGapMinutes = 0, worstScenarioGapMinutes = 0, averageGapMinutes = 0,
        reorderingsTested = 1, buffersTested = 0\<rparr>\<rparr>"
  have run: "simulateReordering reorderSample 1 DEFAULT_BUFFER_CONFIG = Inr [?s]"
    by code_simp
  from simulateReordering_cap_and_stats [of reorderSample 1 DEFAULT_BUFFER_CONFIG]
  obtain st stats sols where all:
    "reorderingScenarios reorderSample 1 = Inr st \<and> finalStats st = Inr stats \<and>
     simulateReordering reorderSample 1 DEFAULT_BUFFER_CONFIG = Inr sols \<and>
     length sols \<le> 1 \<and>
     length sols = scenariosTested st \<and>
     length (filter (\<lambda>s. feasibility s = feasible) sols) = feasibleCount st \<and>
     (\<forall>s \<in> set sols.
        successRate s = real (feasibleCount st) / real (scenariosTested st) \<and>
        statistics s = Some stats)"
    by (elim exE)
  then have r: "simulateReordering reorderSample 1 DEFAULT_BUFFER_CONFIG = Inr sols"
    and c: "length sols \<le> 1"
    and n: "length sols = scenariosTested st"
    and f: "length (filter (\<lambda>s. feasibility s = feasible) sols) = feasibleCount st"
    and e: "\<forall>s \<in> set sols. successRate s = real (feasibleCount st) / real (scenariosTested st) \<and>
              statistics s = Some stats"
    by simp_all
  from r run have sols: "sols = [?s]" by simp
  from n f have "scenariosTested st = 1" "feasibleCount st = 1" by (simp_all add: sols)
  with e have "\<forall>s \<in> set sols. successRate s = 1 \<and> statistics s = Some stats" by simp
  moreover from this have "stats = \<lparr>totalScenariosTested = 1, feasibleScenarios = 1,
        bestScenarioGapMinutes = 0, worstScenarioGapMinutes = 0, averageGapMinutes = 0,
        reorderingsTested = 1, buffersTested = 0\<rparr>" by (simp add: sols)
  ultimately show ?thesis using r c sols by auto
qed

subsection \<open>Orchestrator\<close>

lemma getAppointmentPairs_members:
  "(x, y) \<in> set (getAppointmentPairs xs) \<Longrightarrow> x \<in> set xs \<and> y \<in> set xs"
  by (induction xs) auto

lemma map_filter_all_None: "(\<And>x. x \<in> set xs \<Longrightarrow> f x = None) \<Longrightarrow> List.map_filter f xs = []"
  by (induction xs) (simp_all add: List.map_filter_simps)

lemma findAllConflicts_no_start:
  assumes "\<forall>a \<in> set appts. truthyStartTime a = None"
  shows "findAllConflicts appts = []"
  unfolding findAllConflicts_def
proof (rule map_filter_all_None)
  fix p assume p: "p \<in> set (getAppointmentPairs appts)"
  obtain x y where xy: "p = (x, y)" by (cases p)
  with p have "x \<in> set appts" using getAppointmentPairs_members [of x y appts] by simp
  with assms have "truthyStartTime x = None" by blast
  then have "detectConflict x y = None" by (intro detectConflict_no_start disjI1)
  then show "(case p of (apt1, apt2) \<Rightarrow>
               if date apt1 \<noteq> date apt2 then None else detectConflict apt1 apt2) = None"
    by (simp add: xy)
qed

text \<open>
  Claim C9.  When \<open>findAllConflicts\<close> finds no conflict, \<open>runConflictSimulations\<close>
  returns the empty list and has not started \<open>resolveConflict\<close> (so no strategy
  simulator) once, whatever the clock, the options and the simulators are.
  Appointments without start times are such a case.
\<close>

theorem runConflictSimulations_no_conflicts:
  "(findAllConflicts appts = [] \<longrightarrow>
      runConflictSimulations resolveConflict now appts options = ([], 0)) \<and>
   ((\<forall>a \<in> set appts. truthyStartTime a = None) \<longrightarrow>
      findAllConflicts appts = [] \<and>
      runConflictSimulations resolveConflict now appts options = ([], 0))"
proof (intro conjI impI)
  assume "findAllConflicts appts = []"
  then show "runConflictSimulations resolveConflict now appts options = ([], 0)"
    by (simp add: runConflictSimulations_def)
next
  assume "\<forall>a \<in> set appts. truthyStartTime a = None"
  then show "findAllConflicts appts = []" by (rule findAllConflicts_no_start)
next
  assume "\<forall>a \<in> set appts. truthyStartTime a = None"
  then have "findAllConflicts appts = []" by (rule findAllConflicts_no_start)
  then show "runConflictSimulations resolveConflict now appts options = ([], 0)"
    by (simp add: runConflictSimulations_def)
qed

theorem runConflictSimulations_no_conflicts_witness:
  "list_all (\<lambda>a. truthyStartTime a = None) flexibleSample \<and>
   findAllConflicts flexibleSample = [] \<and>
   (\<forall>resolveConflict now.
      runConflictSimulations resolveConflict now flexibleSample DEFAULT_SIMULATION_OPTIONS = ([], 0))"
proof -
  have h: "\<forall>a \<in> set flexibleSample. truthyStartTime a = None"
    by (simp add: flexibleSample_def sampleAppointment_def truthyStartTime_def)
  have both: "findAllConflicts flexibleSample = [] \<and>
      runConflictSimulations r n flexibleSample DEFAULT_SIMULATION_OPTIONS = ([], 0)" for r n
    by (rule runConflictSimulations_no_conflicts [THEN conjunct2, THEN mp, OF h])
  then have c: "findAllConflicts flexibleSample = []" by simp
  with h both show ?thesis by (simp add: list_all_iff)
qed

subsection \<open>Great-circle distance\<close>

lemma atan2_nonneg: "0 \<le> y \<Longrightarrow> 0 \<le> atan2 y x"
proof -
  assume y: "0 \<le> y"
  consider "0 < x" | "x < 0" | "x = 0" by linarith
  then show ?thesis
  proof cases
    case 1
    with y have "0 \<le> y / x" by simp
    then have "0 \<le> arctan (y / x)" by (simp only: zero_le_arctan_iff)
    with 1 show ?thesis by (simp add: atan2_def)
  next
    case 2
    have "- (pi / 2) < arctan (y / x)" by (rule arctan_lbound)
    then have "0 \<le> arctan (y / x) + pi" using pi_gt_zero by linarith
    with 2 y show ?thesis by (simp add: atan2_def)
  next
    case 3
    with y show ?thesis by (simp add: atan2_def)
  qed
qed

lemma haversine_term_nonneg:
  fixes p1 p2 y :: real
  shows "0 \<le> sin ((p2 - p1) / 2) * sin ((p2 - p1) / 2) + cos p1 * cos p2 * sin y * sin y"
proof -
  define A where "A = cos (p2 - p1)"
  define B where "B = cos (p1 + p2)"
  define s where "s = sin y * sin y"
  have "s = (sin y)\<^sup>2" by (simp add: s_def power2_eq_square)
  then have s: "0 \<le> s" "s \<le> 1"
    using sin_cos_squared_add [of y] zero_le_power2 [of "cos y"] zero_le_power2 [of "sin y"]
    by linarith+
  have AB: "A \<le> 1" "- 1 \<le> B" by (simp_all add: A_def B_def)
  have "sin ((p2 - p1) / 2) * sin ((p2 - p1) / 2)
        = (cos ((p2 - p1) / 2 - (p2 - p1) / 2) - cos ((p2 - p1) / 2 + (p2 - p1) / 2)) / 2"
    by (rule sin_times_sin)
  also have "\<dots> = (1 - A) / 2" by (simp add: A_def)
  finally have x: "sin ((p2 - p1) / 2) * sin ((p2 - p1) / 2) = (1 - A) / 2" .
  have m: "cos (p1 - p2) = A" using cos_minus [of "p2 - p1"] by (simp add: A_def)
  have "cos p1 * cos p2 = (cos (p1 - p2) + cos (p1 + p2)) / 2"
    by (rule cos_times_cos)
  then have c: "cos p1 * cos p2 = (A + B) / 2" by (simp only: m B_def)
  have "sin ((p2 - p1) / 2) * sin ((p2 - p1) / 2) + cos p1 * cos p2 * sin y * sin y
        = sin ((p2 - p1) / 2) * sin ((p2 - p1) / 2) + (cos p1 * cos p2) * (sin y * sin y)"
    by (simp only: mult.assoc)
  also have "\<dots> = (1 - A) / 2 + (A + B) / 2 * s"
    by (simp only: x c s_def)
  also have "\<dots> = (1 - A) * (1 - s) / 2 + s * (1 + B) / 2"
    by (simp add: field_simps)
  finally have eq: "sin ((p2 - p1) / 2) * sin ((p2 - p1) / 2) + cos p1 * cos p2 * sin y * sin y
        = (1 - A) * (1 - s) / 2 + s * (1 + B) / 2" .
  have "0 \<le> (1 - A) * (1 - s)" using s AB by (intro mult_nonneg_nonneg) linarith+
  moreover have "0 \<le> s * (1 + B)" using s AB by (intro mult_nonneg_nonneg) linarith+
  ultimately have "0 \<le> (1 - A) * (1 - s) / 2 + s * (1 + B) / 2" by linarith
  then show ?thesis by (simp only: eq)
qed

lemma haversineDistance_nonneg: "0 \<le> haversineDistance lat1 lng1 lat2 lng2"
proof -
  have d: "degreesToRadians (lat2 - lat1) / 2 = (degreesToRadians lat2 - degreesToRadians lat1) / 2"
    by (simp only: degreesToRadians_def left_diff_distrib)
  have a: "0 \<le> sin (degreesToRadians (lat2 - lat1) / 2) * sin (degreesToRadians (lat2 - lat1) / 2) +
              cos (degreesToRadians lat1) * cos (degreesToRadians lat2) *
              sin (degreesToRadians (lng2 - lng1) / 2) * sin (degreesToRadians (lng2 - lng1) / 2)"
    unfolding d by (rule haversine_term_nonneg)
  have two: "(0::real) \<le> 2" and R: "(0::real) \<le> 6371" by simp_all
  show ?thesis
    unfolding haversineDistance_def Let_def
    by (intro mult_nonneg_nonneg atan2_nonneg real_sqrt_ge_zero a two R)
qed


subsection \<open>A route on concrete data\<close>

lemmas time_string_defs = timeToMinutes_def minutesToTime_def Number_def digitVal_def jsAdd_def jsSub_def
  jsAbs_def jsLt_def jsLe_def jsGt_def padStart2_def intToString_def natToString.simps digitChar_def
  jsRem_def timeDifference_def getArrivalStatus_def GRACE_PERIOD_MINUTES_def

lemma groupAppointmentsByDate_lateSample: "groupAppointmentsByDate lateSample = [(''2024-01-15'', lateSample)]"
  by (simp add: groupAppointmentsByDate_def lateSample_def sampleAppointment_def)

lemma checkScheduleFeasibility_lateSample: "checkScheduleFeasibility lateSample = []"
  by (simp add: checkScheduleFeasibility_def groupAppointmentsByDate_lateSample)
     (simp add: lateSample_def sampleAppointment_def isInflexible_def sortWith_def)

lemma counts_lateSample:
  "length lateSample = 2" "length (filter isInflexible lateSample) = 1"
  "length (filter (\<lambda>apt. \<not> isInflexible apt) lateSample) = 1"
  by (simp_all add: lateSample_def sampleAppointment_def isInflexible_def)

lemma canOptimizeRoute_lateSample: "canOptimizeRoute lateSample = (True, Scheduled 2 1 1)"
  by (simp add: canOptimizeRoute_def Let_def checkScheduleFeasibility_lateSample counts_lateSample)

lemma first_of_lateSample: "lateSample \<noteq> []" "date (hd lateSample) = ''2024-01-15''"
  by (simp_all add: lateSample_def sampleAppointment_def)

lemma order_constantLookup:
  "fold (insertFlexibleAppointment constantLookup)
     (filter (\<lambda>apt. \<not> isInflexible apt) lateSample)
     (sortWith compareStartTimes (filter isInflexible lateSample)) = lateSample"
  by (simp add: lateSample_def sampleAppointment_def isInflexible_def sortWith_def
      insertFlexibleAppointment_def spliceIn_def calculateRouteCost_def legCost_def
      constantLookup_def upt_rec)

lemma minutesToTime_540: "minutesToTime (Some 540) = ''09:00''"
  by (simp add: time_string_defs)
lemma minutesToTime_580: "minutesToTime (Some 580) = ''09:40''"
  by (simp add: time_string_defs)
lemma timeToMinutes_0940: "timeToMinutes ''09:40'' = Some 580"
  by (simp add: time_string_defs)

lemma calculateRoute_constantLookup:
  "calculateRoute constantLookup lateSample =
     Inr \<lparr> stops =
             [\<lparr> appointment = sampleAppointment ''F'' 30 None flexible 1 1, order = 1,
                 arrivalTime = ''09:00'', travelTimeFromPrevious = 0, distanceFromPrevious = 0,
                 status = on_time, minutesFromPreferred = Some 0 \<rparr>,
              \<lparr> appointment = sampleAppointment ''A'' 30 (Some ''09:00'') inflexible 2 2, order = 2,
                 arrivalTime = ''09:40'', travelTimeFromPrevious = 10, distanceFromPrevious = 5000,
                 status = late, minutesFromPreferred = Some 40 \<rparr>],
           totalDistance = 5000, totalDriveTime = 10, totalVisitTime = 60 \<rparr>"
  by (simp add: calculateRoute_def lateSample_def travelLeg_def constantLookup_def
      truthyStartTime_def sampleAppointment_def isInflexible_def minutesToTime_540 minutesToTime_580 timeToMinutes_0900 timeToMinutes_0940
      getArrivalStatus_def timeDifference_def jsAbs_def jsSub_def jsLe_def jsLt_def jsAdd_def
      GRACE_PERIOD_MINUTES_def)


lemma optimizeDay_constantLookup:
  "optimizeDay constantLookup lateSample =
     Inr \<lparr> stops =
             [\<lparr> appointment = sampleAppointment ''F'' 30 None flexible 1 1, order = 1,
                 arrivalTime = ''09:00'', travelTimeFromPrevious = 0, distanceFromPrevious = 0,
                 status = on_time, minutesFromPreferred = Some 0 \<rparr>,
              \<lparr> appointment = sampleAppointment ''A'' 30 (Some ''09:00'') inflexible 2 2, order = 2,
                 arrivalTime = ''09:40'', travelTimeFromPrevious = 10, distanceFromPrevious = 5000,
                 status = late, minutesFromPreferred = Some 40 \<rparr>],
           totalDistance = 5000, totalDriveTime = 10, totalVisitTime = 60, dayWarnings = [] \<rparr>"
  by (simp add: optimizeDay_def order_constantLookup optimizeInflexiblePositions_def calculateRoute_constantLookup)

lemma optimizeRoute_constantLookup:
  "optimizeRoute constantLookup lateSample =
     \<lparr> stops =
         [\<lparr> appointment = sampleAppointment ''F'' 30 None flexible 1 1, order = 1,
             arrivalTime = ''09:00'', travelTimeFromPrevious = 0, distanceFromPrevious = 0,
             status = on_time, minutesFromPreferred = Some 0 \<rparr>,
          \<lparr> appointment = sampleAppointment ''A'' 30 (Some ''09:00'') inflexible 2 2, order = 2,
             arrivalTime = ''09:40'', travelTimeFromPrevious = 10, distanceFromPrevious = 5000,
             status = late, minutesFromPreferred = Some 40 \<rparr>],
       totalDistance = 5000, totalDriveTime = 10, totalVisitTime = 60,
       routeDate = ''2024-01-15'', success = True, error = None, warnings = None \<rparr>"
proof -
  have "optimizeDays constantLookup [lateSample]
          \<lparr> stops = [], totalDistance = 0, totalDriveTime = 0, totalVisitTime = 0,
            dayWarnings = [] \<rparr> =
        Inr \<lparr> stops =
             [\<lparr> appointment = sampleAppointment ''F'' 30 None flexible 1 1, order = 1,
                 arrivalTime = ''09:00'', travelTimeFromPrevious = 0, distanceFromPrevious = 0,
                 status = on_time, minutesFromPreferred = Some 0 \<rparr>,
              \<lparr> appointment = sampleAppointment ''A'' 30 (Some ''09:00'') inflexible 2 2, order = 2,
                 arrivalTime = ''09:40'', travelTimeFromPrevious = 10, distanceFromPrevious = 5000,
                 status = late, minutesFromPreferred = Some 40 \<rparr>],
           totalDistance = 5000, totalDriveTime = 10, totalVisitTime = 60, dayWarnings = [] \<rparr>"
    by (simp add: optimizeDay_constantLookup)
  then show ?thesis
    by (simp add: optimizeRoute_def list.case_eq_if first_of_lateSample canOptimizeRoute_lateSample groupAppointmentsByDate_lateSample)
qed

text \<open>
  Claim C1, evaluated on the code.  A flexible appointment \<open>F\<close> (30 minutes, no
  start time) and an inflexible appointment \<open>A\<close> at 09:00, with every leg taking
  10 minutes and 5 km: both insertion positions cost the same, so \<open>F\<close> goes
  first and starts the day at 09:00; \<open>A\<close> is reached at 09:40, 40 minutes after
  its start time, and the route is returned with \<open>success = true\<close>.
  \<open>validateRoute\<close>, which the optimizer never calls, reports the stop as outside
  the 15-minute grace period.
\<close>

theorem optimizeRoute_accepts_late_arrival:
  "success (optimizeRoute constantLookup lateSample) = True \<and>
   stops (optimizeRoute constantLookup lateSample) =
     [\<lparr> appointment = sampleAppointment ''F'' 30 None flexible 1 1, order = 1,
         arrivalTime = ''09:00'', travelTimeFromPrevious = 0, distanceFromPrevious = 0,
         status = on_time, minutesFromPreferred = Some 0 \<rparr>,
      \<lparr> appointment = sampleAppointment ''A'' 30 (Some ''09:00'') inflexible 2 2, order = 2,
         arrivalTime = ''09:40'', travelTimeFromPrevious = 10, distanceFromPrevious = 5000,
         status = late, minutesFromPreferred = Some 40 \<rparr>] \<and>
   validateRoute (stops (optimizeRoute constantLookup lateSample)) GRACE_PERIOD_MINUTES =
     [OutsideGracePeriod 2 ''09:40'' ''09:00'' 15]"
  by (simp add: optimizeRoute_constantLookup validateRoute_def truthyStartTime_def sampleAppointment_def
      isInflexible_def timeToMinutes_0900 timeToMinutes_0940 jsAbs_def jsSub_def jsGt_def jsLt_def jsAdd_def
      GRACE_PERIOD_MINUTES_def)

subsection \<open>Route builder: order of the stops\<close>

lemma mset_insertSorted: "mset (insertSorted cmp x xs) = add_mset x (mset xs)"
  by (induction xs) simp_all

lemma mset_sortWith: "mset (sortWith cmp xs) = mset xs"
  by (induction xs) (simp_all add: sortWith_def mset_insertSorted)

lemma mset_spliceIn: "mset (spliceIn position x xs) = add_mset x (mset xs)"
proof -
  have "mset (take position xs) + mset (drop position xs) = mset xs"
    by (metis append_take_drop_id mset_append)
  then show ?thesis by (simp add: spliceIn_def)
qed

lemma mset_insertFlexibleAppointment:
  "mset (insertFlexibleAppointment gdm x xs) = add_mset x (mset xs)"
  by (simp add: insertFlexibleAppointment_def mset_spliceIn split: prod.splits)

lemma mset_fold_insertFlexible:
  "mset (fold (insertFlexibleAppointment gdm) fs init) = mset fs + mset init"
  by (induction fs arbitrary: init) (simp_all add: mset_insertFlexibleAppointment)

lemma mset_ordered:
  "mset (optimizeInflexiblePositions
           (fold (insertFlexibleAppointment gdm) (filter (\<lambda>apt. \<not> isInflexible apt) appts)
              (sortWith compareStartTimes (filter isInflexible appts)))
           (sortWith compareStartTimes (filter isInflexible appts))) = mset appts"
  by (simp add: optimizeInflexiblePositions_def mset_fold_insertFlexible mset_sortWith)

lemma routeLoop_appointments:
  "routeLoop gdm prev rest i t acc = Inr res \<Longrightarrow>
   map appointment (stops res) = map appointment (stops acc) @ rest"
proof (induction rest arbitrary: prev i t acc)
  case Nil
  then show ?case by simp
next
  case (Cons cur rest)
  from Cons.prems obtain tt d where leg: "travelLeg gdm prev cur = Inr (tt, d)"
    by (cases "travelLeg gdm prev cur") auto
  with Cons.prems show ?case
    by (auto simp: Let_def dest!: Cons.IH)
qed

lemma calculateRoute_appointments:
  "calculateRoute gdm xs = Inr res \<Longrightarrow> map appointment (stops res) = xs"
  by (cases xs) (auto simp: calculateRoute_def Let_def dest!: routeLoop_appointments)

lemma travelLeg_total:
  assumes "neverThrows gdm"
  shows "\<exists>tt d. travelLeg gdm prev cur = Inr (tt, d)"
proof -
  from assms have "gdm (coordinates prev) (coordinates cur) \<noteq> LookupThrows"
    unfolding neverThrows_def by blast
  then show ?thesis
    by (cases "gdm (coordinates prev) (coordinates cur)")
       (auto simp: travelLeg_def Let_def split: list.splits)
qed

lemma routeLoop_total:
  "neverThrows gdm \<Longrightarrow> \<exists>res. routeLoop gdm prev rest i t acc = Inr res"
proof (induction rest arbitrary: prev i t acc)
  case Nil
  then show ?case by simp
next
  case (Cons cur rest)
  from travelLeg_total [OF Cons.prems] obtain tt d
    where "travelLeg gdm prev cur = Inr (tt, d)" by blast
  with Cons.IH [OF Cons.prems] show ?case by (simp add: Let_def)
qed

lemma calculateRoute_total:
  "neverThrows gdm \<Longrightarrow> \<exists>res. calculateRoute gdm xs = Inr res"
  by (cases xs) (simp_all add: calculateRoute_def Let_def routeLoop_total)

lemma optimizeDay_total:
  assumes "neverThrows gdm"
  shows "\<exists>res. optimizeDay gdm appts = Inr res"
proof -
  obtain r where "calculateRoute gdm (optimizeInflexiblePositions
           (fold (insertFlexibleAppointment gdm) (filter (\<lambda>apt. \<not> isInflexible apt) appts)
              (sortWith compareStartTimes (filter isInflexible appts)))
           (sortWith compareStartTimes (filter isInflexible appts))) = Inr r"
    using calculateRoute_total [OF assms] by blast
  then show ?thesis by (simp add: optimizeDay_def Let_def)
qed

lemma optimizeDay_stops:
  assumes "optimizeDay gdm appts = Inr res"
  shows "\<exists>ordered r. mset ordered = mset appts \<and> calculateRoute gdm ordered = Inr r \<and>
           stops res = stops r"
proof -
  let ?ordered = "optimizeInflexiblePositions
           (fold (insertFlexibleAppointment gdm) (filter (\<lambda>apt. \<not> isInflexible apt) appts)
              (sortWith compareStartTimes (filter isInflexible appts)))
           (sortWith compareStartTimes (filter isInflexible appts))"
  from assms obtain r where r: "calculateRoute gdm ?ordered = Inr r"
    by (cases "calculateRoute gdm ?ordered") (auto simp: optimizeDay_def Let_def)
  with assms have "stops res = stops r" by (auto simp: optimizeDay_def Let_def)
  with r mset_ordered [of gdm appts] show ?thesis by blast
qed

subsection \<open>Route builder: stops without a start time\<close>

















subsection \<open>Route builder: arrival times\<close>

lemma travelLeg_nonneg:
  assumes "travelTimesNonNegative gdm" and "travelLeg gdm prev cur = Inr (tt, d)"
  shows "0 \<le> tt"
proof (cases "gdm (coordinates prev) (coordinates cur)")
  case LookupThrows
  with assms(2) show ?thesis by (simp add: travelLeg_def)
next
  case (LookupResults rs)
  show ?thesis
  proof (cases rs)
    case Nil
    have "0 \<le> geodesic prev cur * 1.2"
      by (simp add: geodesic_def haversineDistance_nonneg)
    then have "round (0::real) \<le> round (geodesic prev cur * 1.2)" by (rule round_mono)
    with assms(2) LookupResults Nil show ?thesis by (simp add: travelLeg_def Let_def)
  next
    case (Cons r rest)
    with assms(1) LookupResults have "0 \<le> duration r"
      unfolding travelTimesNonNegative_def by blast
    with assms(2) LookupResults Cons show ?thesis by (simp add: travelLeg_def)
  qed
qed

lemma adjacent_snoc:
  assumes "\<forall>k. Suc k < length xs \<longrightarrow> Q (xs ! k) (xs ! Suc k)"
    and "xs \<noteq> [] \<Longrightarrow> Q (last xs) s"
  shows "\<forall>k. Suc k < length (xs @ [s]) \<longrightarrow> Q ((xs @ [s]) ! k) ((xs @ [s]) ! Suc k)"
proof (intro allI impI)
  fix k assume k: "Suc k < length (xs @ [s])"
  show "Q ((xs @ [s]) ! k) ((xs @ [s]) ! Suc k)"
  proof (cases "Suc k < length xs")
    case True
    with assms(1) show ?thesis by (simp add: nth_append)
  next
    case False
    with k have eq: "Suc k = length xs" by simp
    then have ne: "xs \<noteq> []" by auto
    from eq have "k = length xs - 1" by simp
    then have "(xs @ [s]) ! k = last xs" using ne by (simp add: nth_append last_conv_nth)
    moreover from eq have "(xs @ [s]) ! Suc k = s" by (simp add: nth_append)
    ultimately show ?thesis using assms(2) [OF ne] by simp
  qed
qed

lemma routeLoop_arrivals:
  assumes "routeLoop gdm prev rest i (Some m) acc = Inr res"
    and "0 \<le> m"
    and "stops acc \<noteq> []"
    and "appointment (last (stops acc)) = prev"
    and "arrivalTime (last (stops acc)) = minutesToTime (Some m)"
    and "\<forall>k. Suc k < length (stops acc) \<longrightarrow> arrivesAfter (stops acc ! k) (stops acc ! Suc k)"
    and "0 \<le> visitDurationMinutes prev"
    and "\<forall>a \<in> set rest. 0 \<le> visitDurationMinutes a"
    and "travelTimesNonNegative gdm"
  shows "\<forall>k. Suc k < length (stops res) \<longrightarrow> arrivesAfter (stops res ! k) (stops res ! Suc k)"
  using assms
proof (induction rest arbitrary: prev i m acc)
  case Nil
  then show ?case by simp
next
  case (Cons cur rest)
  from Cons.prems(1) obtain tt d where leg: "travelLeg gdm prev cur = Inr (tt, d)"
    by (cases "travelLeg gdm prev cur") auto
  from travelLeg_nonneg [OF Cons.prems(9) leg] have tt: "0 \<le> tt" .
  let ?m = "m + (visitDurationMinutes prev + tt)"
  let ?stop = "\<lparr> appointment = cur, order = i + 1, arrivalTime = minutesToTime (Some ?m),
                  travelTimeFromPrevious = tt, distanceFromPrevious = d,
                  status = getArrivalStatus (minutesToTime (Some ?m))
                             (case truthyStartTime cur of
                                Some s \<Rightarrow> s | None \<Rightarrow> minutesToTime (Some ?m))
                             GRACE_PERIOD_MINUTES,
                  minutesFromPreferred =
                    (case truthyStartTime cur of
                       Some s \<Rightarrow> jsAbs (jsSub (timeToMinutes (minutesToTime (Some ?m)))
                                                (timeToMinutes s))
                     | None \<Rightarrow> Some 0) \<rparr>"
  let ?acc = "\<lparr> stops = stops acc @ [?stop],
                 totalDistance = totalDistance acc + d,
                 totalDriveTime = totalDriveTime acc + tt,
                 totalVisitTime = totalVisitTime acc + visitDurationMinutes cur \<rparr>"
  from Cons.prems(1) leg have run: "routeLoop gdm cur rest (i + 1) (Some ?m) ?acc = Inr res"
    by (simp add: Let_def jsAdd_def)
  from Cons.prems(2,7) tt have m': "0 \<le> ?m" by simp
  have step: "arrivesAfter (last (stops acc)) ?stop"
    using Cons.prems(2,4,5,7) tt m'
    by (simp add: arrivesAfter_def timeToMinutes_minutesToTime_nonneg)
  have adj: "\<forall>k. Suc k < length (stops ?acc) \<longrightarrow> arrivesAfter (stops ?acc ! k) (stops ?acc ! Suc k)"
    using adjacent_snoc [of "stops acc" arrivesAfter ?stop] Cons.prems(6) step by simp
  show ?case
  proof (rule Cons.IH [OF run m'])
    show "stops ?acc \<noteq> []" by simp
    show "appointment (last (stops ?acc)) = cur" by simp
    show "arrivalTime (last (stops ?acc)) = minutesToTime (Some ?m)" by simp
    show "\<forall>k. Suc k < length (stops ?acc) \<longrightarrow> arrivesAfter (stops ?acc ! k) (stops ?acc ! Suc k)"
      by (rule adj)
    show "0 \<le> visitDurationMinutes cur" using Cons.prems(8) by simp
    show "\<forall>a \<in> set rest. 0 \<le> visitDurationMinutes a" using Cons.prems(8) by simp
    show "travelTimesNonNegative gdm" by (rule Cons.prems(9))
  qed
qed

lemma calculateRoute_arrivals:
  assumes "calculateRoute gdm xs = Inr res"
    and "startTimesParse xs" and "durationsNonNegative xs" and "travelTimesNonNegative gdm"
  shows "\<forall>k. Suc k < length (stops res) \<longrightarrow> arrivesAfter (stops res ! k) (stops res ! Suc k)"
proof (cases xs)
  case Nil
  with assms(1) show ?thesis by (auto simp: calculateRoute_def)
next
  case (Cons firstApt rest)
  let ?t = "case truthyStartTime firstApt of
              Some s \<Rightarrow> if isInflexible firstApt then timeToMinutes s else Some (9 * 60)
            | None \<Rightarrow> Some (9 * 60)"
  have "\<exists>m. ?t = Some m \<and> 0 \<le> m"
  proof (cases "truthyStartTime firstApt")
    case None
    then show ?thesis by simp
  next
    case (Some s)
    with assms(2) Cons obtain y where "timeToMinutes s = Some y" "0 \<le> y"
      by (auto simp: startTimesParse_def split: option.splits)
    with Some show ?thesis by simp
  qed
  then obtain m where m: "?t = Some m" and m0: "0 \<le> m" by blast
  let ?first = "\<lparr> appointment = firstApt, order = 1, arrivalTime = minutesToTime ?t,
                   travelTimeFromPrevious = 0, distanceFromPrevious = 0,
                   status = getArrivalStatus (minutesToTime ?t)
                              (case truthyStartTime firstApt of Some s \<Rightarrow> s | None \<Rightarrow> ''09:00'')
                              GRACE_PERIOD_MINUTES,
                   minutesFromPreferred =
                     (case truthyStartTime firstApt of
                        Some s \<Rightarrow> jsAbs (jsSub (timeToMinutes (minutesToTime ?t))
                                                 (timeToMinutes s))
                      | None \<Rightarrow> Some 0) \<rparr>"
  let ?acc = "\<lparr> stops = [?first], totalDistance = 0, totalDriveTime = 0,
                 totalVisitTime = visitDurationMinutes firstApt \<rparr>"
  from assms(1) Cons have "routeLoop gdm firstApt rest 1 ?t ?acc = Inr res"
    by (simp add: calculateRoute_def Let_def)
  then have run: "routeLoop gdm firstApt rest 1 (Some m) ?acc = Inr res"
    by (simp only: m)
  show ?thesis
  proof (rule routeLoop_arrivals [OF run m0])
    show "stops ?acc \<noteq> []" by simp
    show "appointment (last (stops ?acc)) = firstApt" by simp
    show "arrivalTime (last (stops ?acc)) = minutesToTime (Some m)" by (simp add: m)
    show "\<forall>k. Suc k < length (stops ?acc) \<longrightarrow> arrivesAfter (stops ?acc ! k) (stops ?acc ! Suc k)"
      by simp
    show "0 \<le> visitDurationMinutes firstApt"
      using assms(3) Cons by (simp add: durationsNonNegative_def)
    show "\<forall>a \<in> set rest. 0 \<le> visitDurationMinutes a"
      using assms(3) Cons by (simp add: durationsNonNegative_def list_all_iff)
    show "travelTimesNonNegative gdm" by (rule assms(4))
  qed
qed

lemma startTimesParse_mset:
  "mset xs = mset ys \<Longrightarrow> startTimesParse ys \<Longrightarrow> startTimesParse xs"
  by (metis startTimesParse_def list_all_iff set_mset_mset)

lemma durationsNonNegative_mset:
  "mset xs = mset ys \<Longrightarrow> durationsNonNegative ys \<Longrightarrow> durationsNonNegative xs"
  by (metis durationsNonNegative_def list_all_iff set_mset_mset)

text \<open>
  Claim C3, for the route of one day (\<open>optimizeDay\<close>).  When the lookup never
  throws, the route builder returns a result.  Whenever it returns, the
  appointments of its stops are the input appointments, each as often as in the
  input (so the identities are a permutation of the input's).  When moreover
  the start times read as times, no duration is negative and the lookup
  answers no negative travel time, each stop is reached no earlier than the
  arrival at the stop before it plus that stop's visit duration.
\<close>

theorem optimizeDay_permutation_and_arrivals:
  "(neverThrows gdm \<longrightarrow> (\<exists>res. optimizeDay gdm appts = Inr res)) \<and>
   (\<forall>res. optimizeDay gdm appts = Inr res \<longrightarrow>
      mset (map appointment (stops res)) = mset appts \<and>
      mset (map (\<lambda>st. ident (appointment st)) (stops res)) = mset (map ident appts) \<and>
      (startTimesParse appts \<and> durationsNonNegative appts \<and> travelTimesNonNegative gdm \<longrightarrow>
         (\<forall>k. Suc k < length (stops res) \<longrightarrow>
            arrivesAfter (stops res ! k) (stops res ! Suc k))))"
proof (intro conjI allI impI)
  assume "neverThrows gdm"
  then show "\<exists>res. optimizeDay gdm appts = Inr res" by (rule optimizeDay_total)
next
  fix res assume ok: "optimizeDay gdm appts = Inr res"
  from optimizeDay_stops [OF ok] obtain ordered r
    where o: "mset ordered = mset appts" and r: "calculateRoute gdm ordered = Inr r"
      and s: "stops res = stops r" by blast
  from calculateRoute_appointments [OF r] have "map appointment (stops res) = ordered"
    by (simp add: s)
  with o show perm: "mset (map appointment (stops res)) = mset appts" by simp
  have "map (\<lambda>st. ident (appointment st)) (stops res) = map ident (map appointment (stops res))"
    by simp
  then have "mset (map (\<lambda>st. ident (appointment st)) (stops res))
               = image_mset ident (mset (map appointment (stops res)))"
    by (simp only: mset_map)
  with perm show "mset (map (\<lambda>st. ident (appointment st)) (stops res)) = mset (map ident appts)"
    by simp
  fix k
  assume h: "startTimesParse appts \<and> durationsNonNegative appts \<and> travelTimesNonNegative gdm"
    and k: "Suc k < length (stops res)"
  from h have tn: "travelTimesNonNegative gdm" by blast
  from h o have sp: "startTimesParse ordered" by (blast intro: startTimesParse_mset)
  from h o have dn: "durationsNonNegative ordered" by (blast intro: durationsNonNegative_mset)
  have "\<forall>k. Suc k < length (stops r) \<longrightarrow> arrivesAfter (stops r ! k) (stops r ! Suc k)"
    by (rule calculateRoute_arrivals [OF r sp dn tn])
  with k show "arrivesAfter (stops res ! k) (stops res ! Suc k)" by (simp add: s)
qed

theorem optimizeDay_permutation_and_arrivals_witness:
  "neverThrows oneWayLookup \<and> startTimesParse lateSample \<and> durationsNonNegative lateSample \<and>
   travelTimesNonNegative oneWayLookup \<and>
   (\<exists>res. optimizeDay oneWayLookup lateSample = Inr res \<and>
      mset (map appointment (stops res)) = mset lateSample \<and>
      Suc 0 < length (stops res) \<and>
      arrivesAfter (stops res ! 0) (stops res ! Suc 0))"
proof -
  have n: "neverThrows oneWayLookup"
    by (simp add: neverThrows_def oneWayLookup_def)
  have p: "startTimesParse lateSample"
    by (simp add: startTimesParse_def lateSample_def sampleAppointment_def truthyStartTime_def
        timeToMinutes_0900)
  have d: "durationsNonNegative lateSample"
    by (simp add: durationsNonNegative_def lateSample_def sampleAppointment_def)
  have t: "travelTimesNonNegative oneWayLookup"
    by (auto simp: travelTimesNonNegative_def oneWayLookup_def split: if_splits)
  note inst = optimizeDay_permutation_and_arrivals [of oneWayLookup lateSample]
  from inst n obtain res where res: "optimizeDay oneWayLookup lateSample = Inr res" by blast
  with inst have perm: "mset (map appointment (stops res)) = mset lateSample" by blast
  then have "length (map appointment (stops res)) = length lateSample" by (rule mset_eq_length)
  then have len: "Suc 0 < length (stops res)" by (simp add: lateSample_def)
  from inst res p d t len have "arrivesAfter (stops res ! 0) (stops res ! Suc 0)" by blast
  with n p d t res perm len show ?thesis by blast
qed

end
